theory Spec2Isabelle
  imports Main "HOL-Library.AList" "HOL-Library.Char_ord" "HOL-Library.List_Lexorder"
begin

section \<open>Values, documents and the document store\<close>

text \<open>
  Everything the handlers of \<^verbatim>\<open>app.py\<close> read from a request body or from the
  document store is a JSON-like value. A Python \<^verbatim>\<open>dict\<close> is an association
  list in insertion order; \<^verbatim>\<open>d[k] = v\<close> is \<open>AList.update\<close>, which overwrites
  in place or appends, as Python does. A \<^verbatim>\<open>datetime\<close> read back from the store
  is represented by the text its \<^verbatim>\<open>isoformat()\<close> returns. Numbers are integers.
  A \<open>char\<close> is a code point below 256, and strings compare by code point.
  \<open>VSentinel\<close> is \<^verbatim>\<open>firestore.SERVER_TIMESTAMP\<close>: the marker a handler writes
  where the store is to put the time of the write. The store is kept symbolic about
  it: a stored \<open>VSentinel\<close> stands for the commit time of the write that stored it.
  JSON numbers with a fraction are outside the model.
  A request body (\<^verbatim>\<open>request.get_json()\<close>) is a JSON object, or \<open>None\<close> when
  there is none.
\<close>

datatype fsval =
    VNull
  | VBool bool
  | VNum int
  | VStr string
  | VTime string
  | VSentinel
  | VList "fsval list"
  | VDict "(string \<times> fsval) list"

type_synonym doc = "(string \<times> fsval) list"

text \<open>Exceptions: those Python raises on the values above, \<open>ServiceError\<close> for one
  raised by the identity service, with its message, and \<open>EncodeError\<close> for the one the
  store client raises when it cannot encode what it is asked to write (a
  \<^verbatim>\<open>TypeError\<close> or a \<^verbatim>\<open>ValueError\<close>).\<close>

datatype exn = KeyError string | TypeError | AttributeError | ServiceError string | EncodeError

text \<open>Python truthiness: what \<^verbatim>\<open>if x\<close> and \<^verbatim>\<open>not x\<close> test.\<close>

fun truthy :: "fsval \<Rightarrow> bool" where
  "truthy VNull = False"
| "truthy (VBool b) = b"
| "truthy (VNum n) = (n \<noteq> 0)"
| "truthy (VStr s) = (s \<noteq> [])"
| "truthy (VTime t) = True"
| "truthy VSentinel = True"
| "truthy (VList xs) = (xs \<noteq> [])"
| "truthy (VDict d) = (d \<noteq> [])"

text \<open>\<^verbatim>\<open>k in d\<close>, \<^verbatim>\<open>d.get(k, default)\<close> and \<^verbatim>\<open>d[k]\<close> on a dict.\<close>

definition has_key :: "doc \<Rightarrow> string \<Rightarrow> bool" where
  "has_key d k = (map_of d k \<noteq> None)"

definition dict_get :: "doc \<Rightarrow> string \<Rightarrow> fsval \<Rightarrow> fsval" where
  "dict_get d k dflt = (case map_of d k of None \<Rightarrow> dflt | Some v \<Rightarrow> v)"

definition dict_item :: "doc \<Rightarrow> string \<Rightarrow> exn + fsval" where
  "dict_item d k = (case map_of d k of None \<Rightarrow> Inl (KeyError k) | Some v \<Rightarrow> Inr v)"

text \<open>\<^verbatim>\<open>v.get(k)\<close> on a value that may not be a dict: anything else has no
  \<^verbatim>\<open>get\<close>.\<close>

fun py_get :: "fsval \<Rightarrow> string \<Rightarrow> exn + fsval" where
  "py_get (VDict d) k = Inr (dict_get d k VNull)"
| "py_get _ k = Inl AttributeError"

text \<open>
  Iterating a value, as a \<^verbatim>\<open>for\<close> or a comprehension does: a list gives its
  elements, a string its characters, a dict its keys, anything else raises.
\<close>

fun py_iter :: "fsval \<Rightarrow> exn + fsval list" where
  "py_iter (VList xs) = Inr xs"
| "py_iter (VStr s) = Inr (map (\<lambda>c. VStr [c]) s)"
| "py_iter (VDict d) = Inr (map (\<lambda>kv. VStr (fst kv)) d)"
| "py_iter _ = Inl TypeError"

text \<open>
  Python's \<^verbatim>\<open>==\<close> on values: a boolean equals the number 0 or 1 it stands for,
  lists are equal item by item, dicts when they have the same keys with equal values in
  any order, values of different kinds are different.
\<close>

fun num_of :: "fsval \<Rightarrow> int option" where
  "num_of (VNum n) = Some n"
| "num_of (VBool b) = Some (if b then 1 else 0)"
| "num_of _ = None"

fun py_eq :: "fsval \<Rightarrow> fsval \<Rightarrow> bool" where
  "py_eq VNull w = (w = VNull)"
| "py_eq (VStr a) w = (w = VStr a)"
| "py_eq (VTime a) w = (w = VTime a)"
| "py_eq VSentinel w = (w = VSentinel)"
| "py_eq (VBool a) w = (num_of w = Some (if a then 1 else 0))"
| "py_eq (VNum a) w = (num_of w = Some a)"
| "py_eq (VList []) w = (w = VList [])"
| "py_eq (VList (x # xs)) w =
     (case w of VList (y # ys) \<Rightarrow> py_eq x y \<and> py_eq (VList xs) (VList ys) | _ \<Rightarrow> False)"
| "py_eq (VDict a) w =
     (case w of
        VDict b \<Rightarrow>
          length a = length b \<and>
          list_all (\<lambda>kv. case map_of b (fst kv) of None \<Rightarrow> False
                                                 | Some v \<Rightarrow> py_eq (snd kv) v) a
      | _ \<Rightarrow> False)"

text \<open>
  What the store client accepts in a write. \<^verbatim>\<open>set\<close> and \<^verbatim>\<open>update\<close> walk
  the data through its dicts, not through its lists: a server-timestamp marker found on
  the way becomes a transform, a key on the way must not be empty, and every other value
  is encoded. The encoder refuses an integer outside the signed 64-bit range and a
  marker, which is what a marker inside a list comes to.
\<close>

definition int64 :: "int \<Rightarrow> bool" where
  "int64 n = (- (2 ^ 63) \<le> n \<and> n < 2 ^ 63)"

fun encode_ok :: "fsval \<Rightarrow> bool" where
  "encode_ok (VNum n) = int64 n"
| "encode_ok VSentinel = False"
| "encode_ok (VList xs) = list_all encode_ok xs"
| "encode_ok (VDict d) = list_all (\<lambda>kv. encode_ok (snd kv)) d"
| "encode_ok v = True"

fun field_ok :: "fsval \<Rightarrow> bool" where
  "field_ok VSentinel = True"
| "field_ok (VDict d) = list_all (\<lambda>kv. fst kv \<noteq> [] \<and> field_ok (snd kv)) d"
| "field_ok v = encode_ok v"

definition write_ok :: "doc \<Rightarrow> bool" where
  "write_ok data = list_all (\<lambda>kv. field_ok (snd kv)) data"

text \<open>
  The store: each collection is the list of its documents, keyed by document id, in the
  order \<^verbatim>\<open>stream()\<close> yields them. \<^verbatim>\<open>ref.get()\<close> is \<open>map_of\<close>,
  \<^verbatim>\<open>ref.set(doc)\<close> is \<open>AList.update\<close>. The \<^verbatim>\<open>members\<close> and
  \<^verbatim>\<open>messages\<close> subcollections of a group are keyed by the group id and the
  document id; a subcollection document exists independently of its parent document.
\<close>

record db =
  users :: "(string \<times> doc) list"
  blogs :: "(string \<times> doc) list"
  recipes :: "(string \<times> doc) list"
  groups :: "(string \<times> doc) list"
  members :: "((string \<times> string) \<times> doc) list"
  messages :: "((string \<times> string) \<times> doc) list"

text \<open>\<^verbatim>\<open>ref.update(fields)\<close> on an existing document: the given top-level fields
  are overwritten or added, every other field is kept.\<close>

definition merge_fields :: "doc \<Rightarrow> doc \<Rightarrow> doc" where
  "merge_fields old upd = fold (\<lambda>kv d. AList.update (fst kv) (snd kv) d) upd old"

text \<open>
  What a request gets from outside the program: the text of
  \<^verbatim>\<open>datetime.datetime.now().isoformat()\<close>, of
  \<^verbatim>\<open>datetime.datetime.now().strftime("%Y-%m-%d")\<close>, and the id the store gives to
  a document created with \<^verbatim>\<open>collection.document()\<close>.
\<close>

record env =
  now_iso :: string
  today :: string
  new_id :: string

text \<open>
  The Flask session holds at most the three keys \<^verbatim>\<open>session_login\<close> sets;
  \<open>None\<close> is an absent key. The uid is the string the identity service verified; role
  and email are whatever the user document holds.
\<close>

record session =
  s_uid :: "string option"
  s_role :: "fsval option"
  s_email :: "fsval option"

text \<open>\<^verbatim>\<open>session.get(k, default)\<close>; \<^verbatim>\<open>session.get(k)\<close> has default
  \<^verbatim>\<open>None\<close>.\<close>

definition opt_get :: "fsval option \<Rightarrow> fsval \<Rightarrow> fsval" where
  "opt_get v dflt = (case v of None \<Rightarrow> dflt | Some x \<Rightarrow> x)"

definition session_uid :: "session \<Rightarrow> fsval" where
  "session_uid sess = (case s_uid sess of None \<Rightarrow> VNull | Some u \<Rightarrow> VStr u)"

text \<open>
  Responses. \<open>Json status body\<close> is \<^verbatim>\<open>jsonify(body), status\<close>;
  \<open>Raised status e\<close> is the handler's \<^verbatim>\<open>except Exception as e\<close> branch,
  \<^verbatim>\<open>jsonify({"success": False, "error": str(e)}), status\<close>; \<open>LoginRaised e\<close> is
  that of \<^verbatim>\<open>session_login\<close>, \<^verbatim>\<open>jsonify({"error": str(e)}), 400\<close>.
\<close>

datatype response =
    Json nat fsval
  | Raised nat exn
  | LoginRaised exn
  | Redirect string
  | Page string
  | Plain nat string

definition failure :: "string \<Rightarrow> fsval" where
  "failure msg = VDict [(''success'', VBool False), (''error'', VStr msg)]"

definition success_msg :: "string \<Rightarrow> fsval" where
  "success_msg msg = VDict [(''success'', VBool True), (''message'', VStr msg)]"

section \<open>The session gate and the login exchange\<close>

text \<open>
  \<^verbatim>\<open>login_required(role)\<close> wraps a handler \<open>f\<close>. \<^verbatim>\<open>if role and ...\<close> tests
  the truthiness of \<open>role\<close>: \<^verbatim>\<open>None\<close> and the empty string set no requirement.
\<close>

definition login_required ::
  "string option \<Rightarrow> (session \<Rightarrow> db \<Rightarrow> response \<times> db) \<Rightarrow> session \<Rightarrow> db \<Rightarrow> response \<times> db" where
  "login_required role f sess d =
     (if s_uid sess = None then (Redirect ''/login'', d)
      else if (case role of None \<Rightarrow> False
               | Some r \<Rightarrow> r \<noteq> [] \<and> opt_get (s_role sess) VNull \<noteq> VStr r)
        then (Plain 403 ''Unauthorized'', d)
      else f sess d)"

text \<open>
  \<^verbatim>\<open>session_login\<close>. The identity service is the parameter \<open>verify_id_token\<close>:
  \<open>Inr uid\<close> when the token verifies and the decoded token carries \<open>uid\<close>, \<open>Inl e\<close>
  when verification raises. The result is the response and the session afterwards.
\<close>

definition session_login ::
  "(fsval \<Rightarrow> exn + string) \<Rightarrow> doc option \<Rightarrow> session \<Rightarrow> db \<Rightarrow> response \<times> session" where
  "session_login verify_id_token data sess d =
     (case data of
        None \<Rightarrow> (Json 400 (VDict [(''error'', VStr ''No JSON data received'')]), sess)
      | Some dat \<Rightarrow>
          if dat = [] then (Json 400 (VDict [(''error'', VStr ''No JSON data received'')]), sess)
          else if \<not> truthy (dict_get dat ''idToken'' VNull)
            then (Json 400 (VDict [(''error'', VStr ''No ID token provided'')]), sess)
          else
            (case verify_id_token (dict_get dat ''idToken'' VNull) of
               Inl e \<Rightarrow> (LoginRaised e, sess)
             | Inr uid \<Rightarrow>
                 (case map_of (users d) uid of
                    None \<Rightarrow> (Json 400 (VDict [(''error'', VStr ''User not found'')]), sess)
                  | Some user_data \<Rightarrow>
                      (Json 200 (VDict [(''success'', VBool True)]),
                       sess\<lparr>s_uid := Some uid,
                            s_role := Some (dict_get user_data ''role'' (VStr ''user'')),
                            s_email := Some (dict_get user_data ''email'' VNull)\<rparr>))))"

section \<open>Cleaning stored data for a response\<close>

text \<open>The text \<^verbatim>\<open>str(firestore.SERVER_TIMESTAMP)\<close> gives.\<close>

definition sentinel_str :: string where
  "sentinel_str = ''Sentinel: Value used to set a document field to the server timestamp.''"

text \<open>
  \<^verbatim>\<open>clean_firestore_data\<close>, field by field: a datetime becomes its ISO text, a dict is
  cleaned recursively, of a list only the dict items are cleaned, a value whose
  \<^verbatim>\<open>str\<close> is that of the sentinel becomes the current time, anything else is kept.
\<close>

fun clean_value :: "string \<Rightarrow> fsval \<Rightarrow> fsval" where
  "clean_value now (VTime t) = VStr t"
| "clean_value now (VDict d) = VDict (map (\<lambda>kv. (fst kv, clean_value now (snd kv))) d)"
| "clean_value now (VList xs) =
     VList (map (\<lambda>item. case item of
                   VDict d \<Rightarrow> VDict (map (\<lambda>kv. (fst kv, clean_value now (snd kv))) d)
                 | _ \<Rightarrow> item) xs)"
| "clean_value now VSentinel = VStr now"
| "clean_value now (VStr s) = (if s = sentinel_str then VStr now else VStr s)"
| "clean_value now v = v"

definition clean_firestore_data :: "string \<Rightarrow> doc \<Rightarrow> doc" where
  "clean_firestore_data now data = map (\<lambda>kv. (fst kv, clean_value now (snd kv))) data"

section \<open>The recent-views tracker\<close>

text \<open>
  The test of the comprehension in \<^verbatim>\<open>track_user_view_internal\<close>:
  \<^verbatim>\<open>v.get("id") == view_data["id"] and v.get("type") == view_data["type"]\<close>,
  evaluated left to right, the second conjunct only when the first holds.
\<close>

definition same_view :: "doc \<Rightarrow> fsval \<Rightarrow> exn + bool" where
  "same_view view_data v =
     (case py_get v ''id'' of Inl e \<Rightarrow> Inl e | Inr a \<Rightarrow>
     (case dict_item view_data ''id'' of Inl e \<Rightarrow> Inl e | Inr b \<Rightarrow>
      if py_eq a b then
        (case py_get v ''type'' of Inl e \<Rightarrow> Inl e | Inr c \<Rightarrow>
        (case dict_item view_data ''type'' of Inl e \<Rightarrow> Inl e | Inr t \<Rightarrow> Inr (py_eq c t)))
      else Inr False))"

text \<open>\<^verbatim>\<open>[v for v in current_views if not (...)]\<close>; the first element whose test
  raises ends the comprehension.\<close>

fun other_views :: "doc \<Rightarrow> fsval list \<Rightarrow> exn + fsval list" where
  "other_views view_data [] = Inr []"
| "other_views view_data (v # vs) =
     (case same_view view_data v of Inl e \<Rightarrow> Inl e | Inr m \<Rightarrow>
     (case other_views view_data vs of Inl e \<Rightarrow> Inl e | Inr r \<Rightarrow>
      Inr (if m then r else v # r)))"

text \<open>The final \<^verbatim>\<open>print\<close> formats \<^verbatim>\<open>view_data['type']\<close> and
  \<^verbatim>\<open>view_data['id']\<close>; a missing key raises there, after the write. A write the
  store client refuses raises before anything is stored; either way the
  \<^verbatim>\<open>except\<close> makes the result \<^verbatim>\<open>False\<close>.\<close>

definition printed :: "doc \<Rightarrow> bool" where
  "printed view_data = (has_key view_data ''type'' \<and> has_key view_data ''id'')"

definition track_user_view_internal :: "doc \<Rightarrow> string \<Rightarrow> db \<Rightarrow> bool \<times> db" where
  "track_user_view_internal view_data uid d =
     (case map_of (users d) uid of
        Some user_doc \<Rightarrow>
          (case py_iter (dict_get user_doc ''recent_views'' (VList [])) of
             Inl e \<Rightarrow> (False, d)
           | Inr it \<Rightarrow>
               (case other_views view_data it of
                  Inl e \<Rightarrow> (False, d)
                | Inr kept \<Rightarrow>
                    let current_views = VDict view_data # kept;
                        current_views = (if length current_views > 50
                                         then take 50 current_views else current_views)
                    in if \<not> write_ok [(''recent_views'', VList current_views)] then (False, d)
                       else
                         (printed view_data,
                          d\<lparr>users := AList.update uid
                                (merge_fields user_doc [(''recent_views'', VList current_views)])
                                (users d)\<rparr>)))
      | None \<Rightarrow>
          if \<not> write_ok [(''recent_views'', VList [VDict view_data])] then (False, d)
          else
            (printed view_data,
             d\<lparr>users := AList.update uid [(''recent_views'', VList [VDict view_data])]
                          (users d)\<rparr>))"

text \<open>\<^verbatim>\<open>for field in required_fields: if field not in data: return ...\<close>: the first field
  that is not a key of the body.\<close>

definition first_absent :: "string list \<Rightarrow> doc \<Rightarrow> string option" where
  "first_absent required data = find (\<lambda>field. \<not> has_key data field) required"

text \<open>The handler of \<^verbatim>\<open>POST /api/user/track-view\<close>.\<close>

definition track_user_view :: "doc option \<Rightarrow> session \<Rightarrow> db \<Rightarrow> response \<times> db" where
  "track_user_view data sess d =
     (case s_uid sess of
        None \<Rightarrow> (Json 401 (failure ''User not logged in''), d)
      | Some uid \<Rightarrow>
          if uid = [] then (Json 401 (failure ''User not logged in''), d)
          else
            (case data of
               None \<Rightarrow> (Json 400 (failure ''No data provided''), d)
             | Some dat \<Rightarrow>
                 if dat = [] then (Json 400 (failure ''No data provided''), d)
                 else
                   (case first_absent [''type'', ''id'', ''title'', ''url''] dat of
                      Some field \<Rightarrow>
                        (Json 400 (failure (''Missing required field: '' @ field)), d)
                    | None \<Rightarrow>
                        let view_data =
                              [(''type'', dict_get dat ''type'' VNull),
                               (''id'', dict_get dat ''id'' VNull),
                               (''title'', dict_get dat ''title'' VNull),
                               (''description'', dict_get dat ''description'' (VStr [])),
                               (''image'', dict_get dat ''image'' (VStr [])),
                               (''url'', dict_get dat ''url'' VNull),
                               (''viewedAt'', VSentinel)]
                        in (case track_user_view_internal view_data uid d of
                              (ok, d') \<Rightarrow>
                                (if ok
                                 then (Json 200 (success_msg ''View tracked successfully''), d')
                                 else (Json 200 (failure ''Failed to track view''), d'))))))"

definition track_user_view_route :: "doc option \<Rightarrow> session \<Rightarrow> db \<Rightarrow> response \<times> db" where
  "track_user_view_route data = login_required None (track_user_view data)"

text \<open>\<^verbatim>\<open>hasattr(value, 'isoformat')\<close> holds of a datetime only.\<close>

fun iso_value :: "fsval \<Rightarrow> fsval" where
  "iso_value (VTime t) = VStr t"
| "iso_value v = v"

fun cleaned_view :: "fsval \<Rightarrow> exn + fsval" where
  "cleaned_view (VDict view) = Inr (VDict (map (\<lambda>kv. (fst kv, iso_value (snd kv))) view))"
| "cleaned_view _ = Inl AttributeError"

fun cleaned_views :: "fsval list \<Rightarrow> exn + fsval list" where
  "cleaned_views [] = Inr []"
| "cleaned_views (view # views) =
     (case cleaned_view view of Inl e \<Rightarrow> Inl e | Inr c \<Rightarrow>
     (case cleaned_views views of Inl e \<Rightarrow> Inl e | Inr cs \<Rightarrow> Inr (c # cs)))"

definition get_user_recent_views :: "session \<Rightarrow> db \<Rightarrow> response \<times> db" where
  "get_user_recent_views sess d =
     (case s_uid sess of
        None \<Rightarrow> (Json 401 (failure ''User not logged in''), d)
      | Some uid \<Rightarrow>
          if uid = [] then (Json 401 (failure ''User not logged in''), d)
          else
            (case map_of (users d) uid of
               None \<Rightarrow>
                 (Json 200 (VDict [(''success'', VBool True), (''recent_views'', VList [])]), d)
             | Some user_data \<Rightarrow>
                 (case py_iter (dict_get user_data ''recent_views'' (VList [])) of
                    Inl e \<Rightarrow> (Raised 500 e, d)
                  | Inr recent_views \<Rightarrow>
                      (case cleaned_views recent_views of
                         Inl e \<Rightarrow> (Raised 500 e, d)
                       | Inr cleaned \<Rightarrow>
                           (Json 200 (VDict [(''success'', VBool True),
                                             (''recent_views'', VList cleaned)]), d)))))"

definition get_user_recent_views_route :: "session \<Rightarrow> db \<Rightarrow> response \<times> db" where
  "get_user_recent_views_route = login_required None get_user_recent_views"

text \<open>The test of the comprehension in \<^verbatim>\<open>remove_recent_view\<close>:
  \<^verbatim>\<open>view.get("id") == view_id and view.get("type") == view_type\<close>.\<close>

definition view_is :: "fsval \<Rightarrow> fsval \<Rightarrow> fsval \<Rightarrow> exn + bool" where
  "view_is view_id view_type view =
     (case py_get view ''id'' of Inl e \<Rightarrow> Inl e | Inr a \<Rightarrow>
      if py_eq a view_id then
        (case py_get view ''type'' of Inl e \<Rightarrow> Inl e | Inr c \<Rightarrow> Inr (py_eq c view_type))
      else Inr False)"

fun updated_views :: "fsval \<Rightarrow> fsval \<Rightarrow> fsval list \<Rightarrow> exn + fsval list" where
  "updated_views view_id view_type [] = Inr []"
| "updated_views view_id view_type (view # views) =
     (case view_is view_id view_type view of Inl e \<Rightarrow> Inl e | Inr m \<Rightarrow>
     (case updated_views view_id view_type views of Inl e \<Rightarrow> Inl e | Inr r \<Rightarrow>
      Inr (if m then r else view # r)))"

definition remove_recent_view :: "doc option \<Rightarrow> session \<Rightarrow> db \<Rightarrow> response \<times> db" where
  "remove_recent_view data sess d =
     (case s_uid sess of
        None \<Rightarrow> (Json 401 (failure ''User not logged in''), d)
      | Some uid \<Rightarrow>
          if uid = [] then (Json 401 (failure ''User not logged in''), d)
          else
            (case data of
               None \<Rightarrow> (Json 400 (failure ''No data provided''), d)
             | Some dat \<Rightarrow>
                 if dat = [] then (Json 400 (failure ''No data provided''), d)
                 else if \<not> truthy (dict_get dat ''viewId'' VNull)
                         \<or> \<not> truthy (dict_get dat ''viewType'' VNull)
                   then (Json 400 (failure ''Missing viewId or viewType''), d)
                 else
                   (case map_of (users d) uid of
                      Some user_data \<Rightarrow>
                        (case py_iter (dict_get user_data ''recent_views'' (VList [])) of
                           Inl e \<Rightarrow> (Raised 500 e, d)
                         | Inr recent_views \<Rightarrow>
                             (case updated_views (dict_get dat ''viewId'' VNull)
                                     (dict_get dat ''viewType'' VNull) recent_views of
                                Inl e \<Rightarrow> (Raised 500 e, d)
                              | Inr kept \<Rightarrow>
                                  (Json 200 (success_msg ''View removed successfully''),
                                   d\<lparr>users := AList.update uid
                                         (merge_fields user_data
                                            [(''recent_views'', VList kept)])
                                         (users d)\<rparr>)))
                    | None \<Rightarrow> (Json 404 (failure ''User not found''), d))))"

definition remove_recent_view_route :: "doc option \<Rightarrow> session \<Rightarrow> db \<Rightarrow> response \<times> db" where
  "remove_recent_view_route data = login_required None (remove_recent_view data)"

section \<open>Blogs and recipes\<close>

text \<open>
  \<^verbatim>\<open>list.sort(key=lambda x: x.get("createdAt", ""), reverse=True)\<close>. \<open>py_lt\<close> is
  Python's \<^verbatim>\<open><\<close> on the values a key can be: strings by code point, numbers
  (a boolean counts as 0 or 1), lists lexicographically; every other pair raises. The
  sort is stable, also with \<^verbatim>\<open>reverse=True\<close>. The model sorts by insertion, which
  gives Python's result whenever no comparison raises, and raises with the first
  comparison it makes that raises.
\<close>

fun py_lt :: "fsval \<Rightarrow> fsval \<Rightarrow> exn + bool" where
  "py_lt (VStr a) (VStr b) = Inr (a < b)"
| "py_lt (VList []) (VList []) = Inr False"
| "py_lt (VList []) (VList (y # ys)) = Inr True"
| "py_lt (VList (x # xs)) (VList []) = Inr False"
| "py_lt (VList (x # xs)) (VList (y # ys)) =
     (if py_eq x y then py_lt (VList xs) (VList ys) else py_lt x y)"
| "py_lt a b =
     (case (num_of a, num_of b) of (Some m, Some n) \<Rightarrow> Inr (m < n) | _ \<Rightarrow> Inl TypeError)"

definition created_key :: "doc \<Rightarrow> fsval" where
  "created_key x = dict_get x ''createdAt'' (VStr [])"

fun insert_desc :: "doc \<Rightarrow> doc list \<Rightarrow> exn + doc list" where
  "insert_desc x [] = Inr [x]"
| "insert_desc x (y # ys) =
     (case py_lt (created_key x) (created_key y) of
        Inl e \<Rightarrow> Inl e
      | Inr lt \<Rightarrow>
          if lt then (case insert_desc x ys of Inl e \<Rightarrow> Inl e | Inr r \<Rightarrow> Inr (y # r))
          else Inr (x # y # ys))"

fun sort_desc :: "doc list \<Rightarrow> exn + doc list" where
  "sort_desc [] = Inr []"
| "sort_desc (x # xs) =
     (case sort_desc xs of Inl e \<Rightarrow> Inl e | Inr r \<Rightarrow> insert_desc x r)"

text \<open>The loop of the listing handlers: each streamed document is cleaned and given its
  id under the key \<^verbatim>\<open>"id"\<close>.\<close>

definition listed :: "env \<Rightarrow> (string \<times> doc) list \<Rightarrow> doc list" where
  "listed e docs =
     map (\<lambda>kv. AList.update ''id'' (VStr (fst kv)) (clean_firestore_data (now_iso e) (snd kv)))
       docs"

text \<open>\<^verbatim>\<open>collection.where("status", "==", "published").stream()\<close>.\<close>

definition published :: "(string \<times> doc) list \<Rightarrow> (string \<times> doc) list" where
  "published docs = filter (\<lambda>kv. map_of (snd kv) ''status'' = Some (VStr ''published'')) docs"

definition listing :: "string \<Rightarrow> doc list \<Rightarrow> response" where
  "listing name items =
     (case sort_desc items of
        Inl e \<Rightarrow> Raised 500 e
      | Inr sorted_items \<Rightarrow>
          Json 200 (VDict [(''success'', VBool True), (name, VList (map VDict sorted_items))]))"

definition get_blogs :: "env \<Rightarrow> db \<Rightarrow> response" where
  "get_blogs e d = listing ''blogs'' (listed e (published (blogs d)))"

definition get_admin_blogs :: "env \<Rightarrow> session \<Rightarrow> db \<Rightarrow> response \<times> db" where
  "get_admin_blogs e sess d = (listing ''blogs'' (listed e (blogs d)), d)"

definition get_admin_blogs_route :: "env \<Rightarrow> session \<Rightarrow> db \<Rightarrow> response \<times> db" where
  "get_admin_blogs_route e = login_required (Some ''admin'') (get_admin_blogs e)"

definition get_recipes :: "env \<Rightarrow> db \<Rightarrow> response" where
  "get_recipes e d = listing ''recipes'' (listed e (published (recipes d)))"

definition get_admin_recipes :: "env \<Rightarrow> session \<Rightarrow> db \<Rightarrow> response \<times> db" where
  "get_admin_recipes e sess d = (listing ''recipes'' (listed e (recipes d)), d)"

definition get_admin_recipes_route :: "env \<Rightarrow> session \<Rightarrow> db \<Rightarrow> response \<times> db" where
  "get_admin_recipes_route e = login_required (Some ''admin'') (get_admin_recipes e)"

text \<open>
  \<^verbatim>\<open>get_single_blog\<close> and \<^verbatim>\<open>get_single_recipe\<close> are not behind the gate. With a
  uid in the session they build a view record and call the tracker; its result is
  dropped. The record has the six keys below and no \<^verbatim>\<open>viewedAt\<close>.
\<close>

definition get_single_blog :: "env \<Rightarrow> string \<Rightarrow> session \<Rightarrow> db \<Rightarrow> response \<times> db" where
  "get_single_blog e blog_id sess d =
     (case map_of (blogs d) blog_id of
        None \<Rightarrow> (Json 404 (failure ''Blog not found''), d)
      | Some blog_doc \<Rightarrow>
          let blog_data = AList.update ''id'' (VStr blog_id)
                            (clean_firestore_data (now_iso e) blog_doc);
              resp = Json 200 (VDict [(''success'', VBool True), (''blog'', VDict blog_data)])
          in (case s_uid sess of
                None \<Rightarrow> (resp, d)
              | Some uid \<Rightarrow>
                  let view_data =
                        [(''type'', VStr ''blog''),
                         (''id'', VStr blog_id),
                         (''title'', dict_get blog_data ''title'' (VStr ''Untitled Blog'')),
                         (''description'', dict_get blog_data ''shortDesc'' (VStr [])),
                         (''image'', dict_get blog_data ''image'' (VStr [])),
                         (''url'', VStr (''/blog/'' @ blog_id))]
                  in (resp, snd (track_user_view_internal view_data uid d))))"

definition get_single_recipe :: "env \<Rightarrow> string \<Rightarrow> session \<Rightarrow> db \<Rightarrow> response \<times> db" where
  "get_single_recipe e recipe_id sess d =
     (case map_of (recipes d) recipe_id of
        None \<Rightarrow> (Json 404 (failure ''Recipe not found''), d)
      | Some recipe_doc \<Rightarrow>
          let recipe_data = AList.update ''id'' (VStr recipe_id)
                              (clean_firestore_data (now_iso e) recipe_doc);
              resp = Json 200 (VDict [(''success'', VBool True), (''recipe'', VDict recipe_data)])
          in (case s_uid sess of
                None \<Rightarrow> (resp, d)
              | Some uid \<Rightarrow>
                  let view_data =
                        [(''type'', VStr ''recipe''),
                         (''id'', VStr recipe_id),
                         (''title'', dict_get recipe_data ''title'' (VStr ''Untitled Recipe'')),
                         (''description'', dict_get recipe_data ''shortDesc'' (VStr [])),
                         (''image'', dict_get recipe_data ''image'' (VStr [])),
                         (''url'', VStr (''/recipe/'' @ recipe_id))]
                  in (resp, snd (track_user_view_internal view_data uid d))))"

text \<open>\<^verbatim>\<open>for field in required_fields: if field not in data or not data[field]\<close>:
  the first required field that is absent or falsy.\<close>

definition first_missing :: "string list \<Rightarrow> doc \<Rightarrow> string option" where
  "first_missing required data =
     find (\<lambda>field. \<not> has_key data field \<or> \<not> truthy (dict_get data field VNull)) required"

definition create_blog :: "env \<Rightarrow> doc option \<Rightarrow> session \<Rightarrow> db \<Rightarrow> response \<times> db" where
  "create_blog e data sess d =
     (case data of
        None \<Rightarrow> (Json 400 (failure ''No data provided''), d)
      | Some dat \<Rightarrow>
          if dat = [] then (Json 400 (failure ''No data provided''), d)
          else
            (case first_missing [''title'', ''shortDesc'', ''content'', ''status''] dat of
               Some field \<Rightarrow> (Json 400 (failure (''Missing required field: '' @ field)), d)
             | None \<Rightarrow>
                 let blog_data =
                       [(''title'', dict_get dat ''title'' VNull),
                        (''shortDesc'', dict_get dat ''shortDesc'' VNull),
                        (''content'', dict_get dat ''content'' VNull),
                        (''status'', dict_get dat ''status'' VNull),
                        (''date'', dict_get dat ''date'' (VStr (today e))),
                        (''image'', dict_get dat ''image''
                           (VStr ''https://placehold.co/600x400/3d3d3d/ffffff?text=Blog+Image'')),
                        (''author'', opt_get (s_email sess) (VStr ''Admin'')),
                        (''authorId'', session_uid sess),
                        (''createdAt'', VSentinel),
                        (''updatedAt'', VSentinel)]
                 in if \<not> write_ok blog_data then (Raised 500 EncodeError, d)
                    else
                      (Json 200 (VDict
                         [(''success'', VBool True),
                          (''blog'', VDict (clean_firestore_data (now_iso e)
                                       (AList.update ''id'' (VStr (new_id e)) blog_data))),
                          (''message'', VStr ''Blog created successfully'')]),
                       d\<lparr>blogs := AList.update (new_id e) blog_data (blogs d)\<rparr>)))"

definition create_blog_route :: "env \<Rightarrow> doc option \<Rightarrow> session \<Rightarrow> db \<Rightarrow> response \<times> db" where
  "create_blog_route e data = login_required (Some ''admin'') (create_blog e data)"

text \<open>\<^verbatim>\<open>for field in names: if field in data: update_data[field] = data[field]\<close>.\<close>

definition copy_fields :: "string list \<Rightarrow> doc \<Rightarrow> doc \<Rightarrow> doc" where
  "copy_fields names data update_data =
     fold (\<lambda>field u. if has_key data field
                      then AList.update field (dict_get data field VNull) u else u)
       names update_data"

definition update_blog :: "string \<Rightarrow> doc option \<Rightarrow> session \<Rightarrow> db \<Rightarrow> response \<times> db" where
  "update_blog blog_id data sess d =
     (case data of
        None \<Rightarrow> (Json 400 (failure ''No data provided''), d)
      | Some dat \<Rightarrow>
          if dat = [] then (Json 400 (failure ''No data provided''), d)
          else
            (case map_of (blogs d) blog_id of
               None \<Rightarrow> (Json 404 (failure ''Blog not found''), d)
             | Some blog_doc \<Rightarrow>
                 let update_data =
                       copy_fields [''title'', ''shortDesc'', ''content'', ''status'', ''date'',
                                    ''image''] dat [(''updatedAt'', VSentinel)]
                 in if \<not> write_ok update_data then (Raised 500 EncodeError, d)
                    else
                      (Json 200 (success_msg ''Blog updated successfully''),
                       d\<lparr>blogs := AList.update blog_id (merge_fields blog_doc update_data)
                                     (blogs d)\<rparr>)))"

definition update_blog_route :: "string \<Rightarrow> doc option \<Rightarrow> session \<Rightarrow> db \<Rightarrow> response \<times> db" where
  "update_blog_route blog_id data = login_required (Some ''admin'') (update_blog blog_id data)"

text \<open>
  \<^verbatim>\<open>str.isspace\<close> on one character, \<^verbatim>\<open>str.strip()\<close>, \<^verbatim>\<open>str.split(sep)\<close>
  with a one-character separator, and the comprehension
  \<^verbatim>\<open>[part.strip() for part in s.split(sep) if part.strip()]\<close>.
\<close>

definition is_space :: "char \<Rightarrow> bool" where
  "is_space c = (of_char c \<in> set [9, 10, 11, 12, 13, 28, 29, 30, 31, 32, 133, 160 :: nat])"

definition strip :: "string \<Rightarrow> string" where
  "strip s = rev (dropWhile is_space (rev (dropWhile is_space s)))"

fun split_on :: "char \<Rightarrow> string \<Rightarrow> string list" where
  "split_on sep [] = [[]]"
| "split_on sep (c # cs) =
     (if c = sep then [] # split_on sep cs
      else (case split_on sep cs of [] \<Rightarrow> [[c]] | p # ps \<Rightarrow> (c # p) # ps))"

definition stripped_parts :: "char \<Rightarrow> string \<Rightarrow> string list" where
  "stripped_parts sep s = map strip (filter (\<lambda>part. strip part \<noteq> []) (split_on sep s))"

text \<open>\<^verbatim>\<open>if isinstance(x, str): x = [...]\<close>: a string is split, any other value is
  taken as it is.\<close>

fun str_or_seq :: "char \<Rightarrow> fsval \<Rightarrow> fsval" where
  "str_or_seq sep (VStr s) = VList (map VStr (stripped_parts sep s))"
| "str_or_seq sep v = v"

definition create_recipe :: "env \<Rightarrow> doc option \<Rightarrow> session \<Rightarrow> db \<Rightarrow> response \<times> db" where
  "create_recipe e data sess d =
     (case data of
        None \<Rightarrow> (Json 400 (failure ''No data provided''), d)
      | Some dat \<Rightarrow>
          if dat = [] then (Json 400 (failure ''No data provided''), d)
          else
            (case first_missing [''title'', ''shortDesc'', ''content'', ''status''] dat of
               Some field \<Rightarrow> (Json 400 (failure (''Missing required field: '' @ field)), d)
             | None \<Rightarrow>
                 let recipe_data =
                       [(''title'', dict_get dat ''title'' VNull),
                        (''shortDesc'', dict_get dat ''shortDesc'' VNull),
                        (''content'', dict_get dat ''content'' VNull),
                        (''status'', dict_get dat ''status'' VNull),
                        (''date'', dict_get dat ''date'' (VStr (today e))),
                        (''image'', dict_get dat ''image''
                           (VStr ''https://placehold.co/600x400/3d3d3d/ffffff?text=Recipe+Image'')),
                        (''author'', opt_get (s_email sess) (VStr ''Admin'')),
                        (''authorId'', session_uid sess),
                        (''prepTime'', dict_get dat ''prepTime'' (VStr [])),
                        (''cookTime'', dict_get dat ''cookTime'' (VStr [])),
                        (''servings'', dict_get dat ''servings'' (VStr [])),
                        (''ingredients'',
                           str_or_seq (CHR 0x0A) (dict_get dat ''ingredients'' (VList []))),
                        (''instructions'',
                           str_or_seq (CHR 0x0A) (dict_get dat ''instructions'' (VList []))),
                        (''tags'', str_or_seq (CHR '','') (dict_get dat ''tags'' (VList []))),
                        (''category'', dict_get dat ''category'' (VStr [])),
                        (''createdAt'', VSentinel),
                        (''updatedAt'', VSentinel)]
                 in if \<not> write_ok recipe_data then (Raised 500 EncodeError, d)
                    else
                      (Json 200 (VDict
                         [(''success'', VBool True),
                          (''recipe'', VDict (clean_firestore_data (now_iso e)
                                         (AList.update ''id'' (VStr (new_id e)) recipe_data))),
                          (''message'', VStr ''Recipe created successfully'')]),
                       d\<lparr>recipes := AList.update (new_id e) recipe_data (recipes d)\<rparr>)))"

definition create_recipe_route :: "env \<Rightarrow> doc option \<Rightarrow> session \<Rightarrow> db \<Rightarrow> response \<times> db" where
  "create_recipe_route e data = login_required (Some ''admin'') (create_recipe e data)"

text \<open>\<^verbatim>\<open>if name in data: update_data[name] = (split if a string, else as it is)\<close>.\<close>

definition copy_seq :: "char \<Rightarrow> string \<Rightarrow> doc \<Rightarrow> doc \<Rightarrow> doc" where
  "copy_seq sep name data update_data =
     (if has_key data name
      then AList.update name (str_or_seq sep (dict_get data name VNull)) update_data
      else update_data)"

definition recipe_update_data :: "doc \<Rightarrow> doc" where
  "recipe_update_data dat =
     copy_fields [''prepTime'', ''cookTime'', ''servings'', ''category''] dat
       (copy_seq (CHR '','') ''tags'' dat
         (copy_seq (CHR 0x0A) ''instructions'' dat
           (copy_seq (CHR 0x0A) ''ingredients'' dat
             (copy_fields [''title'', ''shortDesc'', ''content'', ''status'', ''date'', ''image'']
                dat [(''updatedAt'', VSentinel)]))))"

definition update_recipe :: "string \<Rightarrow> doc option \<Rightarrow> session \<Rightarrow> db \<Rightarrow> response \<times> db" where
  "update_recipe recipe_id data sess d =
     (case data of
        None \<Rightarrow> (Json 400 (failure ''No data provided''), d)
      | Some dat \<Rightarrow>
          if dat = [] then (Json 400 (failure ''No data provided''), d)
          else
            (case map_of (recipes d) recipe_id of
               None \<Rightarrow> (Json 404 (failure ''Recipe not found''), d)
             | Some recipe_doc \<Rightarrow>
                 if \<not> write_ok (recipe_update_data dat) then (Raised 500 EncodeError, d)
                 else
                   (Json 200 (success_msg ''Recipe updated successfully''),
                    d\<lparr>recipes := AList.update recipe_id
                          (merge_fields recipe_doc (recipe_update_data dat)) (recipes d)\<rparr>)))"

definition update_recipe_route :: "string \<Rightarrow> doc option \<Rightarrow> session \<Rightarrow> db \<Rightarrow> response \<times> db" where
  "update_recipe_route recipe_id data =
     login_required (Some ''admin'') (update_recipe recipe_id data)"

section \<open>Groups\<close>

text \<open>\<^verbatim>\<open>len(list(group_ref.collection("members").stream()))\<close>, the member count
  \<^verbatim>\<open>get_group\<close> and \<^verbatim>\<open>get_groups\<close> report.\<close>

definition member_count :: "db \<Rightarrow> string \<Rightarrow> nat" where
  "member_count d group_id = length (filter (\<lambda>kv. fst (fst kv) = group_id) (members d))"

text \<open>
  \<^verbatim>\<open>join_group\<close>. The member document is keyed by \<^verbatim>\<open>session.get("uid")\<close>;
  behind the gate that is the uid. (Without one, \<^verbatim>\<open>document(None)\<close> is a fresh
  document.)
\<close>

definition join_group :: "env \<Rightarrow> string \<Rightarrow> session \<Rightarrow> db \<Rightarrow> response \<times> db" where
  "join_group e group_id sess d =
     (case map_of (groups d) group_id of
        None \<Rightarrow> (Json 404 (failure ''Group not found''), d)
      | Some group_doc \<Rightarrow>
          let member_id = (case s_uid sess of None \<Rightarrow> new_id e | Some uid \<Rightarrow> uid)
          in (case map_of (members d) (group_id, member_id) of
                Some member_doc \<Rightarrow> (Json 400 (failure ''Already a member''), d)
              | None \<Rightarrow>
                  (Json 200 (success_msg ''Joined group successfully''),
                   d\<lparr>members := AList.update (group_id, member_id)
                         [(''userId'', session_uid sess),
                          (''userEmail'', opt_get (s_email sess) VNull),
                          (''joinedAt'', VSentinel)]
                         (members d)\<rparr>)))"

definition join_group_route :: "env \<Rightarrow> string \<Rightarrow> session \<Rightarrow> db \<Rightarrow> response \<times> db" where
  "join_group_route e group_id = login_required None (join_group e group_id)"

section \<open>Notions used to state the properties\<close>

text \<open>
  The values the properties are stated for. A flat value is a scalar or a list of
  scalars; the marker and integers of any size count as scalars here, so that a flat
  value may be one the store client refuses. A plain value is a flat value it accepts.
\<close>

fun scalar :: "fsval \<Rightarrow> bool" where
  "scalar (VList xs) = False"
| "scalar (VDict d) = False"
| "scalar v = True"

fun flat :: "fsval \<Rightarrow> bool" where
  "flat (VList xs) = list_all scalar xs"
| "flat (VDict d) = False"
| "flat v = True"

definition plain :: "fsval \<Rightarrow> bool" where
  "plain v = (flat v \<and> encode_ok v)"






definition stored_views :: "db \<Rightarrow> string \<Rightarrow> fsval list option" where
  "stored_views d uid =
     (case map_of (users d) uid of
        None \<Rightarrow> Some []
      | Some user_doc \<Rightarrow>
          (case map_of user_doc ''recent_views'' of
             None \<Rightarrow> Some []
           | Some (VList xs) \<Rightarrow> Some xs
           | Some _ \<Rightarrow> None))"





text \<open>
  Splitting and trimming, written without reference to the code: \<open>join_with\<close> puts
  the separator back between the pieces, \<open>blank\<close> is a piece of whitespace only,
  \<open>trim\<close> cuts the whitespace at both ends.
\<close>

fun join_with :: "char \<Rightarrow> string list \<Rightarrow> string" where
  "join_with sep [] = []"
| "join_with sep [q] = q"
| "join_with sep (q # qs) = q @ sep # join_with sep qs"

definition blank :: "string \<Rightarrow> bool" where
  "blank q = list_all is_space q"

definition trim :: "string \<Rightarrow> string" where
  "trim q =
     (let t = dropWhile is_space q
      in take (length t - length (takeWhile is_space (rev t))) t)"

text \<open>
  The pieces of a string between the separators, and the normal form the specification
  gives to \<^verbatim>\<open>ingredients\<close>, \<^verbatim>\<open>instructions\<close> and \<^verbatim>\<open>tags\<close>: a string is
  cut into its pieces, the blank pieces are dropped and the others trimmed; any other
  value is taken as it is.
\<close>

definition pieces :: "char \<Rightarrow> string \<Rightarrow> string list" where
  "pieces sep s =
     foldr (\<lambda>c acc. if c = sep then [] # acc else (c # hd acc) # tl acc) s [[]]"

fun normal_form :: "char \<Rightarrow> fsval \<Rightarrow> fsval" where
  "normal_form sep (VStr s) =
     VList (map VStr (map trim (filter (\<lambda>q. \<not> blank q) (pieces sep s))))"
| "normal_form sep v = v"

text \<open>Concrete data for the examples.\<close>

definition db0 :: db where
  "db0 = \<lparr>users = [], blogs = [], recipes = [], groups = [], members = [], messages = []\<rparr>"

definition env0 :: env where
  "env0 = \<lparr>now_iso = ''2024-05-01T10:00:00'', today = ''2024-05-01'', new_id = ''n1''\<rparr>"




definition sess_of :: "string \<Rightarrow> string \<Rightarrow> session" where
  "sess_of uid role =
     \<lparr>s_uid = Some uid, s_role = Some (VStr role), s_email = Some (VStr ''a@example.org'')\<rparr>"

definition no_session :: session where
  "no_session = \<lparr>s_uid = None, s_role = None, s_email = None\<rparr>"

definition dashboard :: "session \<Rightarrow> db \<Rightarrow> response \<times> db" where
  "dashboard sess d = (Page ''home.html'', d)"

definition verify0 :: "fsval \<Rightarrow> exn + string" where
  "verify0 tok = (if tok = VStr ''token-of-u1'' then Inr ''u1''
                  else Inl (ServiceError ''invalid token''))"

definition group_db :: db where
  "group_db = db0\<lparr>groups := [(''g1'', [(''name'', VStr ''Runners'')])]\<rparr>"

definition blog_db :: db where
  "blog_db = db0\<lparr>blogs :=
     [(''b1'', [(''title'', VStr ''Hello''), (''shortDesc'', VStr ''A post''),
                (''content'', VStr ''Text''), (''status'', VStr ''published''),
                (''author'', VStr ''admin@example.org'')])]\<rparr>"

text \<open>
  Reading a listing response: the ids of the listed items. A stored \<^verbatim>\<open>createdAt\<close>
  that is absent, a datetime, the server-timestamp marker or a string is a string after
  cleaning, so that the sort of a listing compares strings only.
\<close>

fun item_id :: "fsval \<Rightarrow> fsval" where
  "item_id (VDict x) = dict_get x ''id'' VNull"
| "item_id _ = VNull"

definition listed_ids :: "response \<Rightarrow> fsval list" where
  "listed_ids r =
     (case r of
        Json st (VDict [flag, (name, VList items)]) \<Rightarrow> map item_id items
      | _ \<Rightarrow> [])"

definition created_ok :: "doc \<Rightarrow> bool" where
  "created_ok b =
     (case map_of b ''createdAt'' of
        None \<Rightarrow> True
      | Some (VTime t) \<Rightarrow> True
      | Some VSentinel \<Rightarrow> True
      | Some (VStr s) \<Rightarrow> True
      | Some _ \<Rightarrow> False)"

definition store_ok :: "(string \<times> doc) list \<Rightarrow> bool" where
  "store_ok docs = (distinct (map fst docs) \<and> list_all (\<lambda>kv. created_ok (snd kv)) docs)"

definition archived_item :: doc where
  "archived_item = [(''title'', VStr ''T''), (''shortDesc'', VStr ''S''),
                    (''content'', VStr ''C''), (''status'', VStr ''archived'')]"

definition recipe_db :: db where
  "recipe_db = db0\<lparr>recipes :=
     [(''r1'', [(''title'', VStr ''Pancakes''), (''status'', VStr ''draft''),
                (''ingredients'', VList [VStr ''1 egg'']),
                (''author'', VStr ''admin@example.org'')])]\<rparr>"

definition some_tags :: string where
  "some_tags = '' quick , vegan,,  low fat ''"

definition eggs_and_flour :: string where
  "eggs_and_flour = ''2 eggs'' @ [CHR 0x0A] @ '' 1 cup flour  '' @ [CHR 0x0A, CHR 0x0A]"

section \<open>The recent-views list\<close>







lemma write_ok_views: "write_ok [(k, VList xs)] = list_all encode_ok xs"
  by (simp add: write_ok_def)

lemma cut_50: "(if length l > 50 then take 50 l else l) = take 50 l"
  by simp


text \<open>A record the store client refuses is not recorded, whatever the store holds.\<close>

lemma track_refused:
  assumes "\<not> encode_ok (VDict vd)"
  shows "track_user_view_internal vd uid d = (False, d)"
proof -
  have head: "\<And>kept. \<not> list_all encode_ok (take 50 (VDict vd # kept))"
    using assms by (simp del: encode_ok.simps)
  have none: "\<not> write_ok [(''recent_views'', VList [VDict vd])]"
    using assms by (simp add: write_ok_views del: encode_ok.simps)
  show ?thesis
    unfolding track_user_view_internal_def Let_def cut_50 write_ok_views
    using head none
    by (simp add: write_ok_views split: option.splits sum.splits del: encode_ok.simps)
qed

























section \<open>The time of a view\<close>

text \<open>
  The handler of \<^verbatim>\<open>POST /api/user/track-view\<close> puts the server-timestamp marker
  under \<^verbatim>\<open>viewedAt\<close> of the record, and the tracker puts the record into the
  \<^verbatim>\<open>recent_views\<close> list. The store client refuses a marker inside a list, so this
  handler never stores a view: the store is left as it was and the answer is never the
  success message.
\<close>

lemma track_user_view_never_stores:
  "snd (track_user_view data sess d) = d \<and>
   fst (track_user_view data sess d) \<noteq> Json 200 (success_msg ''View tracked successfully'')"
proof -
  have r: "\<And>dat uid. track_user_view_internal
              [(''type'', dict_get dat ''type'' VNull), (''id'', dict_get dat ''id'' VNull),
               (''title'', dict_get dat ''title'' VNull),
               (''description'', dict_get dat ''description'' (VStr [])),
               (''image'', dict_get dat ''image'' (VStr [])),
               (''url'', dict_get dat ''url'' VNull), (''viewedAt'', VSentinel)] uid d
            = (False, d)"
    by (rule track_refused) simp
  show ?thesis
    by (simp add: track_user_view_def Let_def r failure_def success_msg_def
        split: option.splits)
qed

text \<open>
  C2. The claim is that every stored view record has a \<^verbatim>\<open>viewedAt\<close> assigned at
  record time, also when a content-read handler records it. At a concrete request the
  code differs: a logged-in user reads blog \<^verbatim>\<open>b1\<close>, and the record stored at the
  front of the user's list has the six keys below and no \<^verbatim>\<open>viewedAt\<close>.
\<close>

theorem get_single_blog_stores_view_without_viewedAt:
  "stored_views (snd (get_single_blog env0 ''b1'' (sess_of ''u1'' ''user'') blog_db)) ''u1''
     = Some [VDict [(''type'', VStr ''blog''), (''id'', VStr ''b1''),
                    (''title'', VStr ''Hello''), (''description'', VStr ''A post''),
                    (''image'', VStr []), (''url'', VStr ''/blog/b1'')]] \<and>
   \<not> has_key [(''type'', VStr ''blog''), (''id'', VStr ''b1''),
              (''title'', VStr ''Hello''), (''description'', VStr ''A post''),
              (''image'', VStr []), (''url'', VStr ''/blog/b1'')] ''viewedAt''"
  by (simp add: get_single_blog_def blog_db_def db0_def env0_def sess_of_def
      clean_firestore_data_def sentinel_str_def dict_get_def track_user_view_internal_def
      stored_views_def has_key_def printed_def write_ok_def)

section \<open>The session gate\<close>

text \<open>
  C3. Without a session (no uid) the gate answers with the redirect to the login page
  and the handler is not run, whatever it is. With a session, a non-empty required role
  and a session role different from it, the gate answers 403 and the handler is not
  run. In every other case the result is that of the handler. The role test is
  equality: an admin session is refused where the role \<^verbatim>\<open>"user"\<close> is required.
\<close>

theorem login_required_gate:
  "(s_uid sess = None \<longrightarrow> login_required role f sess d = (Redirect ''/login'', d)) \<and>
   (s_uid sess \<noteq> None \<and> role = Some r \<and> r \<noteq> [] \<and> opt_get (s_role sess) VNull \<noteq> VStr r
      \<longrightarrow> login_required role f sess d = (Plain 403 ''Unauthorized'', d)) \<and>
   (s_uid sess \<noteq> None \<and>
      (role = None \<or> role = Some [] \<or> role = Some r \<and> opt_get (s_role sess) VNull = VStr r)
      \<longrightarrow> login_required role f sess d = f sess d) \<and>
   (s_uid sess \<noteq> None \<and> s_role sess = Some (VStr ''admin'')
      \<longrightarrow> login_required (Some ''user'') f sess d = (Plain 403 ''Unauthorized'', d))"
  by (auto simp: login_required_def opt_get_def)

theorem login_required_gate_witness:
  "login_required (Some ''admin'') dashboard no_session db0 = (Redirect ''/login'', db0) \<and>
   login_required (Some ''user'') dashboard (sess_of ''u1'' ''admin'') db0
     = (Plain 403 ''Unauthorized'', db0) \<and>
   login_required (Some ''user'') dashboard (sess_of ''u1'' ''user'') db0
     = dashboard (sess_of ''u1'' ''user'') db0 \<and>
   login_required None dashboard (sess_of ''u1'' ''admin'') db0
     = dashboard (sess_of ''u1'' ''admin'') db0"
proof -
  have a: "s_uid no_session = None" by (simp add: no_session_def)
  have b: "s_uid (sess_of ''u1'' ''admin'') \<noteq> None"
    "opt_get (s_role (sess_of ''u1'' ''admin'')) VNull \<noteq> VStr ''user''"
    "s_uid (sess_of ''u1'' ''user'') \<noteq> None"
    "opt_get (s_role (sess_of ''u1'' ''user'')) VNull = VStr ''user''"
    by (simp_all add: sess_of_def opt_get_def)
  from a login_required_gate[of no_session "Some ''admin''" dashboard db0 "''admin''"]
  have 1: "login_required (Some ''admin'') dashboard no_session db0 = (Redirect ''/login'', db0)"
    by blast
  from b login_required_gate[of "sess_of ''u1'' ''admin''" "Some ''user''" dashboard db0 "''user''"]
  have 2: "login_required (Some ''user'') dashboard (sess_of ''u1'' ''admin'') db0
     = (Plain 403 ''Unauthorized'', db0)"
    by simp
  from b login_required_gate[of "sess_of ''u1'' ''user''" "Some ''user''" dashboard db0 "''user''"]
  have 3: "login_required (Some ''user'') dashboard (sess_of ''u1'' ''user'') db0
     = dashboard (sess_of ''u1'' ''user'') db0"
    by simp
  from b login_required_gate[of "sess_of ''u1'' ''admin''" None dashboard db0 "''x''"]
  have 4: "login_required None dashboard (sess_of ''u1'' ''admin'') db0
     = dashboard (sess_of ''u1'' ''admin'') db0"
    by simp
  from 1 2 3 4 show ?thesis by blast
qed

section \<open>The login exchange\<close>

text \<open>
  C4. When the identity service verifies the token of a login request and gives the
  uid: if the store has no user document for the uid, the answer is the error
  \<^verbatim>\<open>"User not found"\<close> (status 400) and the session is what it was; if it has one,
  the answer is success and the session is exactly the uid, the role of the document
  (\<^verbatim>\<open>"user"\<close> when it has none) and its email. The store is not written.
\<close>

theorem session_login_user_lookup:
  assumes "dat \<noteq> []" and "truthy (dict_get dat ''idToken'' VNull)"
    and "verify (dict_get dat ''idToken'' VNull) = Inr uid"
  shows "(map_of (users d) uid = None \<longrightarrow>
            session_login verify (Some dat) sess d
              = (Json 400 (VDict [(''error'', VStr ''User not found'')]), sess)) \<and>
         (\<forall>user_data. map_of (users d) uid = Some user_data \<longrightarrow>
            session_login verify (Some dat) sess d
              = (Json 200 (VDict [(''success'', VBool True)]),
                 \<lparr>s_uid = Some uid,
                  s_role = Some (dict_get user_data ''role'' (VStr ''user'')),
                  s_email = Some (dict_get user_data ''email'' VNull)\<rparr>))"
  using assms by (simp add: session_login_def)

theorem session_login_user_lookup_witness:
  "session_login verify0 (Some [(''idToken'', VStr ''token-of-u1'')]) no_session db0
     = (Json 400 (VDict [(''error'', VStr ''User not found'')]), no_session) \<and>
   session_login verify0 (Some [(''idToken'', VStr ''token-of-u1'')]) no_session
       (db0\<lparr>users := [(''u1'', [(''email'', VStr ''u1@example.org'')])]\<rparr>)
     = (Json 200 (VDict [(''success'', VBool True)]),
        \<lparr>s_uid = Some ''u1'', s_role = Some (VStr ''user''),
         s_email = Some (VStr ''u1@example.org'')\<rparr>)"
proof -
  let ?dat = "[(''idToken'', VStr ''token-of-u1'')]"
  have h1: "?dat \<noteq> []" by simp
  have h2: "truthy (dict_get ?dat ''idToken'' VNull)" by (simp add: dict_get_def)
  have h3: "verify0 (dict_get ?dat ''idToken'' VNull) = Inr ''u1''"
    by (simp add: dict_get_def verify0_def)
  have u0: "map_of (users db0) ''u1'' = None" by (simp add: db0_def)
  have u1: "map_of (users (db0\<lparr>users := [(''u1'', [(''email'', VStr ''u1@example.org'')])]\<rparr>)) ''u1''
            = Some [(''email'', VStr ''u1@example.org'')]" by simp
  from session_login_user_lookup[where dat="?dat" and verify=verify0 and uid="''u1''"
      and d=db0 and sess=no_session, OF h1 h2 h3] u0
  have a: "session_login verify0 (Some ?dat) no_session db0
     = (Json 400 (VDict [(''error'', VStr ''User not found'')]), no_session)" by blast
  from session_login_user_lookup[where dat="?dat" and verify=verify0 and uid="''u1''"
      and d="db0\<lparr>users := [(''u1'', [(''email'', VStr ''u1@example.org'')])]\<rparr>"
      and sess=no_session, OF h1 h2 h3] u1
  have b: "session_login verify0 (Some ?dat) no_session
       (db0\<lparr>users := [(''u1'', [(''email'', VStr ''u1@example.org'')])]\<rparr>)
     = (Json 200 (VDict [(''success'', VBool True)]),
        \<lparr>s_uid = Some ''u1'', s_role = Some (VStr ''user''),
         s_email = Some (VStr ''u1@example.org'')\<rparr>)"
    by (simp add: dict_get_def)
  from a b show ?thesis by blast
qed

section \<open>A user without a user document\<close>

text \<open>
  C10. For a logged-in user whose user document does not exist, listing the recent
  views succeeds with the empty list, and removing a recent view (a request that names
  a view id and a view type) fails with 404 \<^verbatim>\<open>"User not found"\<close>; neither writes
  the store.
\<close>

theorem missing_user_document_asymmetry:
  assumes "s_uid sess = Some uid" and "uid \<noteq> []" and "map_of (users d) uid = None"
  shows "get_user_recent_views_route sess d
           = (Json 200 (VDict [(''success'', VBool True), (''recent_views'', VList [])]), d) \<and>
         (truthy (dict_get dat ''viewId'' VNull) \<and> truthy (dict_get dat ''viewType'' VNull)
            \<longrightarrow> remove_recent_view_route (Some dat) sess d
                  = (Json 404 (failure ''User not found''), d))"
proof -
  have "truthy (dict_get dat ''viewId'' VNull) \<Longrightarrow> dat \<noteq> []"
    by (auto simp: dict_get_def)
  with assms show ?thesis
    by (auto simp: get_user_recent_views_route_def remove_recent_view_route_def
        login_required_def get_user_recent_views_def remove_recent_view_def)
qed

theorem missing_user_document_asymmetry_witness:
  "get_user_recent_views_route (sess_of ''u1'' ''user'') db0
     = (Json 200 (VDict [(''success'', VBool True), (''recent_views'', VList [])]), db0) \<and>
   remove_recent_view_route (Some [(''viewId'', VStr ''b1''), (''viewType'', VStr ''blog'')])
       (sess_of ''u1'' ''user'') db0
     = (Json 404 (failure ''User not found''), db0)"
proof -
  have h: "s_uid (sess_of ''u1'' ''user'') = Some ''u1''" "''u1'' \<noteq> []"
    "map_of (users db0) ''u1'' = None"
    by (simp_all add: sess_of_def db0_def)
  have t: "truthy (dict_get [(''viewId'', VStr ''b1''), (''viewType'', VStr ''blog'')] ''viewId'' VNull)"
    "truthy (dict_get [(''viewId'', VStr ''b1''), (''viewType'', VStr ''blog'')] ''viewType'' VNull)"
    by (simp_all add: dict_get_def)
  from missing_user_document_asymmetry[OF h,
      of "[(''viewId'', VStr ''b1''), (''viewType'', VStr ''blog'')]"] t
  show ?thesis by blast
qed

section \<open>Creating a blog\<close>

lemma first_missing_Some:
  assumes "field \<in> set required"
    and "\<not> has_key dat field \<or> \<not> truthy (dict_get dat field VNull)"
  shows "\<exists>f\<in>set required. first_missing required dat = Some f"
proof (cases "first_missing required dat")
  case None
  with assms show ?thesis by (auto simp: first_missing_def find_None_iff)
next
  case (Some f)
  then have "f \<in> set required"
    by (auto simp: first_missing_def find_Some_iff)
  with Some show ?thesis by simp
qed

text \<open>
  C6. A blog-create request in which one of \<^verbatim>\<open>title\<close>, \<^verbatim>\<open>shortDesc\<close>,
  \<^verbatim>\<open>content\<close>, \<^verbatim>\<open>status\<close> is absent or empty (falsy) is answered with
  status 400 and an error message, and the store is left as it was, by the handler and
  by the handler behind its gate.
\<close>

theorem create_blog_validation:
  assumes "field \<in> set [''title'', ''shortDesc'', ''content'', ''status'']"
    and "\<not> has_key dat field \<or> \<not> truthy (dict_get dat field VNull)"
  shows "(\<exists>msg. create_blog e (Some dat) sess d = (Json 400 (failure msg), d) \<and>
            (msg = ''No data provided'' \<or>
             (\<exists>f\<in>set [''title'', ''shortDesc'', ''content'', ''status''].
                msg = ''Missing required field: '' @ f))) \<and>
         snd (create_blog_route e (Some dat) sess d) = d"
proof -
  from first_missing_Some[OF assms] obtain f where
    f: "f \<in> set [''title'', ''shortDesc'', ''content'', ''status'']"
    "first_missing [''title'', ''shortDesc'', ''content'', ''status''] dat = Some f"
    by blast
  have 1: "dat = [] \<Longrightarrow>
      create_blog e (Some dat) sess d = (Json 400 (failure ''No data provided''), d)"
    by (simp add: create_blog_def)
  have 2: "dat \<noteq> [] \<Longrightarrow>
      create_blog e (Some dat) sess d
        = (Json 400 (failure (''Missing required field: '' @ f)), d)"
    using f(2) by (simp add: create_blog_def)
  from 1 2 have "snd (create_blog e (Some dat) sess d) = d"
    by (cases "dat = []") simp_all
  then have 3: "snd (create_blog_route e (Some dat) sess d) = d"
    by (simp add: create_blog_route_def login_required_def)
  have 4: "\<exists>msg. create_blog e (Some dat) sess d = (Json 400 (failure msg), d) \<and>
            (msg = ''No data provided'' \<or>
             (\<exists>f\<in>set [''title'', ''shortDesc'', ''content'', ''status''].
                msg = ''Missing required field: '' @ f))"
  proof (cases "dat = []")
    case True
    from 1[OF True] show ?thesis by blast
  next
    case False
    from 2[OF False] f(1) show ?thesis by blast
  qed
  from 4 3 show ?thesis by (rule conjI)
qed

theorem create_blog_validation_witness:
  "create_blog env0
     (Some [(''title'', VStr ''T''), (''shortDesc'', VStr ''S''), (''status'', VStr ''draft'')])
     (sess_of ''a1'' ''admin'') db0
   = (Json 400 (failure ''Missing required field: content''), db0)"
proof -
  let ?dat = "[(''title'', VStr ''T''), (''shortDesc'', VStr ''S''), (''status'', VStr ''draft'')]"
  have h1: "''content'' \<in> set [''title'', ''shortDesc'', ''content'', ''status'']" by simp
  have h2: "\<not> has_key ?dat ''content'' \<or> \<not> truthy (dict_get ?dat ''content'' VNull)"
    by (simp add: has_key_def)
  from create_blog_validation[OF h1 h2, of env0 "sess_of ''a1'' ''admin''" db0]
  obtain msg where m: "create_blog env0 (Some ?dat) (sess_of ''a1'' ''admin'') db0
      = (Json 400 (failure msg), db0)" by blast
  have "fst (create_blog env0 (Some ?dat) (sess_of ''a1'' ''admin'') db0)
      = Json 400 (failure ''Missing required field: content'')"
    by (simp add: create_blog_def first_missing_def has_key_def dict_get_def)
  with m show ?thesis by simp
qed

section \<open>Joining a group\<close>

lemma update_absent: "map_of al k = None \<Longrightarrow> AList.update k v al = al @ [(k, v)]"
  by (induction al) (auto split: if_splits)

text \<open>
  C7. For a logged-in user \<open>uid\<close>: joining an absent group fails with 404 and leaves
  the store as it was; joining a group of which the user already has a member document
  fails with 400 \<^verbatim>\<open>"Already a member"\<close> and leaves the store as it was; otherwise
  the call succeeds, the member document of \<open>(group, uid)\<close> is added, every other
  member document is as before, the member count of the group grows by one, and a
  second call by the same user fails with \<^verbatim>\<open>"Already a member"\<close> without changing
  the store, hence the count.
\<close>

theorem join_group_membership:
  assumes "s_uid sess = Some uid"
  shows "(map_of (groups d) g = None \<longrightarrow>
            join_group e g sess d = (Json 404 (failure ''Group not found''), d)) \<and>
         (map_of (groups d) g \<noteq> None \<and> map_of (members d) (g, uid) \<noteq> None \<longrightarrow>
            join_group e g sess d = (Json 400 (failure ''Already a member''), d)) \<and>
         (map_of (groups d) g \<noteq> None \<and> map_of (members d) (g, uid) = None \<longrightarrow>
            (\<exists>d'. join_group e g sess d = (Json 200 (success_msg ''Joined group successfully''), d') \<and>
                  map_of (members d') (g, uid)
                    = Some [(''userId'', VStr uid), (''userEmail'', opt_get (s_email sess) VNull),
                            (''joinedAt'', VSentinel)] \<and>
                  (\<forall>k. k \<noteq> (g, uid) \<longrightarrow> map_of (members d') k = map_of (members d) k) \<and>
                  member_count d' g = Suc (member_count d g) \<and>
                  join_group e g sess d' = (Json 400 (failure ''Already a member''), d') \<and>
                  member_count (snd (join_group e g sess d')) g = member_count d' g))"
proof (intro conjI impI)
  assume "map_of (groups d) g = None"
  then show "join_group e g sess d = (Json 404 (failure ''Group not found''), d)"
    by (simp add: join_group_def)
next
  assume "map_of (groups d) g \<noteq> None \<and> map_of (members d) (g, uid) \<noteq> None"
  with assms show "join_group e g sess d = (Json 400 (failure ''Already a member''), d)"
    by (auto simp: join_group_def)
next
  assume a: "map_of (groups d) g \<noteq> None \<and> map_of (members d) (g, uid) = None"
  let ?m = "[(''userId'', VStr uid), (''userEmail'', opt_get (s_email sess) VNull),
             (''joinedAt'', VSentinel)]"
  let ?d' = "d\<lparr>members := AList.update (g, uid) ?m (members d)\<rparr>"
  from a assms have j: "join_group e g sess d
      = (Json 200 (success_msg ''Joined group successfully''), ?d')"
    by (auto simp: join_group_def session_uid_def)
  have m: "map_of (members ?d') (g, uid) = Some ?m" by (simp add: update_conv')
  have o: "\<forall>k. k \<noteq> (g, uid) \<longrightarrow> map_of (members ?d') k = map_of (members d) k"
    by (simp add: update_conv')
  have c: "member_count ?d' g = Suc (member_count d g)"
    using a by (simp add: member_count_def update_absent)
  have g': "map_of (groups ?d') g \<noteq> None" using a by simp
  from g' m assms have s: "join_group e g sess ?d' = (Json 400 (failure ''Already a member''), ?d')"
    by (auto simp: join_group_def)
  from j m o c s
  show "\<exists>d'. join_group e g sess d = (Json 200 (success_msg ''Joined group successfully''), d') \<and>
          map_of (members d') (g, uid) = Some ?m \<and>
          (\<forall>k. k \<noteq> (g, uid) \<longrightarrow> map_of (members d') k = map_of (members d) k) \<and>
          member_count d' g = Suc (member_count d g) \<and>
          join_group e g sess d' = (Json 400 (failure ''Already a member''), d') \<and>
          member_count (snd (join_group e g sess d')) g = member_count d' g"
    by (intro exI[of _ ?d']) simp
qed

theorem join_group_membership_witness:
  "join_group env0 ''g0'' (sess_of ''u1'' ''user'') group_db
     = (Json 404 (failure ''Group not found''), group_db) \<and>
   (\<exists>d'. join_group env0 ''g1'' (sess_of ''u1'' ''user'') group_db
            = (Json 200 (success_msg ''Joined group successfully''), d') \<and>
          member_count group_db ''g1'' = 0 \<and> member_count d' ''g1'' = 1 \<and>
          join_group env0 ''g1'' (sess_of ''u1'' ''user'') d'
            = (Json 400 (failure ''Already a member''), d'))"
proof -
  have h: "s_uid (sess_of ''u1'' ''user'') = Some ''u1''" by (simp add: sess_of_def)
  have g0: "map_of (groups group_db) ''g0'' = None"
    and g1: "map_of (groups group_db) ''g1'' \<noteq> None \<and> map_of (members group_db) (''g1'', ''u1'') = None"
    and c0: "member_count group_db ''g1'' = 0"
    by (simp_all add: group_db_def db0_def member_count_def)
  from join_group_membership[OF h, of group_db "''g0''" env0] g0
  have a: "join_group env0 ''g0'' (sess_of ''u1'' ''user'') group_db
     = (Json 404 (failure ''Group not found''), group_db)" by blast
  from join_group_membership[OF h, of group_db "''g1''" env0] g1
  obtain d' where d': "join_group env0 ''g1'' (sess_of ''u1'' ''user'') group_db
            = (Json 200 (success_msg ''Joined group successfully''), d')"
    "member_count d' ''g1'' = Suc (member_count group_db ''g1'')"
    "join_group env0 ''g1'' (sess_of ''u1'' ''user'') d'
            = (Json 400 (failure ''Already a member''), d')"
    by blast
  from d'(2) c0 have "member_count d' ''g1'' = 1" by simp
  with a d' c0 show ?thesis by blast
qed

section \<open>Updating a blog or a recipe\<close>

lemma map_of_merge_fields:
  "distinct (map fst upd) \<Longrightarrow>
   map_of (merge_fields old upd) k = (case map_of upd k of None \<Rightarrow> map_of old k | Some v \<Rightarrow> Some v)"
proof (induction upd arbitrary: old)
  case Nil
  then show ?case by (simp add: merge_fields_def)
next
  case (Cons kv upd)
  obtain a b where kv: "kv = (a, b)" by (cases kv)
  have step: "merge_fields old ((a, b) # upd) = merge_fields (AList.update a b old) upd"
    by (simp add: merge_fields_def)
  from Cons.prems kv have d: "distinct (map fst upd)" and a: "map_of upd a = None"
    by (auto simp: map_of_eq_None_iff)
  have "map_of (merge_fields (AList.update a b old) upd) k
        = (case map_of upd k of None \<Rightarrow> map_of (AList.update a b old) k | Some v \<Rightarrow> Some v)"
    by (rule Cons.IH[OF d])
  with a show ?case
    unfolding kv step by (cases "k = a") (simp_all add: update_conv' split: option.splits)
qed

lemma has_key_map_of: "has_key dat k \<Longrightarrow> Some (dict_get dat k dflt) = map_of dat k"
  by (auto simp: has_key_def dict_get_def)

lemma map_of_copy_fields:
  "map_of (copy_fields names dat u) k
     = (if k \<in> set names \<and> has_key dat k then map_of dat k else map_of u k)"
proof (induction names arbitrary: u)
  case Nil
  then show ?case by (simp add: copy_fields_def)
next
  case (Cons n names)
  have step: "copy_fields (n # names) dat u
      = copy_fields names dat
          (if has_key dat n then AList.update n (dict_get dat n VNull) u else u)"
    by (simp add: copy_fields_def)
  show ?case
    unfolding step Cons.IH
    by (auto simp: update_conv' has_key_map_of)
qed

lemma distinct_copy_fields:
  "distinct (map fst u) \<Longrightarrow> distinct (map fst (copy_fields names dat u))"
proof (induction names arbitrary: u)
  case Nil
  then show ?case by (simp add: copy_fields_def)
next
  case (Cons n names)
  have step: "copy_fields (n # names) dat u
      = copy_fields names dat
          (if has_key dat n then AList.update n (dict_get dat n VNull) u else u)"
    by (simp add: copy_fields_def)
  from Cons.prems show ?case
    unfolding step by (intro Cons.IH) (simp add: distinct_update)
qed

lemma map_of_copy_seq:
  "map_of (copy_seq sep name dat u) k
     = (if k = name \<and> has_key dat name
        then Some (str_or_seq sep (dict_get dat name VNull)) else map_of u k)"
  by (simp add: copy_seq_def update_conv')

lemma distinct_copy_seq:
  "distinct (map fst u) \<Longrightarrow> distinct (map fst (copy_seq sep name dat u))"
  by (simp add: copy_seq_def distinct_update)

lemma merged_blog_field:
  assumes "ua \<notin> set F"
  shows "map_of (merge_fields old (copy_fields F dat [(ua, S)])) k
         = (if k = ua then Some S
            else if k \<in> set F \<and> has_key dat k then map_of dat k
            else map_of old k)"
proof -
  have "distinct (map fst (copy_fields F dat [(ua, S)]))"
    by (rule distinct_copy_fields) simp
  then show ?thesis
    using assms
    by (auto simp: map_of_merge_fields map_of_copy_fields has_key_def split: option.splits)
qed

lemma merged_recipe_field:
  assumes "ua \<notin> set F1" "ua \<notin> set F2" "ua \<noteq> a" "ua \<noteq> b" "ua \<noteq> c"
    and "a \<notin> set F2" "b \<notin> set F2" "c \<notin> set F2" "c \<noteq> a" "c \<noteq> b"
  shows "map_of (merge_fields old
           (copy_fields F2 dat (copy_seq sc c dat (copy_seq sb b dat (copy_seq sa a dat
              (copy_fields F1 dat [(ua, S)])))))) k
         = (if k = ua then Some S
            else if k \<in> {a, b} \<and> has_key dat k
              then Some (str_or_seq (if k = b then sb else sa) (dict_get dat k VNull))
            else if k = c \<and> has_key dat k then Some (str_or_seq sc (dict_get dat k VNull))
            else if k \<in> set (F1 @ F2) \<and> has_key dat k then map_of dat k
            else map_of old k)"
proof -
  have "distinct (map fst (copy_fields F2 dat (copy_seq sc c dat (copy_seq sb b dat
          (copy_seq sa a dat (copy_fields F1 dat [(ua, S)]))))))"
    by (intro distinct_copy_fields distinct_copy_seq) simp
  then show ?thesis
    using assms
    by (auto simp: map_of_merge_fields map_of_copy_fields map_of_copy_seq has_key_def
        split: option.splits)
qed

lemma strip_ends:
  assumes "strip s \<noteq> []"
  shows "\<not> is_space (hd (strip s)) \<and> \<not> is_space (last (strip s))"
proof -
  let ?t = "dropWhile is_space s"
  let ?u = "dropWhile is_space (rev ?t)"
  from assms have u: "?u \<noteq> []" by (simp add: strip_def)
  have t: "?t \<noteq> []"
  proof
    assume "?t = []"
    then have "?u = []" by (simp only: rev.simps dropWhile.simps)
    with u show False by contradiction
  qed
  have "last (strip s) = hd ?u" by (simp add: strip_def last_rev)
  with hd_dropWhile[OF u] have l: "\<not> is_space (last (strip s))" by simp
  have "rev ?t = takeWhile is_space (rev ?t) @ ?u" by simp
  then have "last (rev ?t) = last ?u" using u by (metis last_appendR)
  then have "hd (strip s) = hd ?t" by (simp add: strip_def hd_rev last_rev)
  with hd_dropWhile[OF t] have "\<not> is_space (hd (strip s))" by simp
  with l show ?thesis by simp
qed

lemma strip_idem: "strip (strip s) = strip s"
proof (cases "strip s = []")
  case True
  have "strip [] = []" by (simp add: strip_def)
  with True show ?thesis by simp
next
  case False
  from strip_ends[OF False] have h: "\<not> is_space (hd (strip s))"
    and l: "\<not> is_space (last (strip s))" by simp_all
  from h have 1: "dropWhile is_space (strip s) = strip s"
    by (simp add: dropWhile_eq_self_iff)
  from l False have 2: "dropWhile is_space (rev (strip s)) = rev (strip s)"
    by (simp add: dropWhile_eq_self_iff hd_rev)
  have "strip (strip s) = rev (dropWhile is_space (rev (dropWhile is_space (strip s))))"
    by (simp add: strip_def)
  also have "\<dots> = strip s" by (simp only: 1 2 rev_rev_ident)
  finally show ?thesis .
qed

lemma strip_eq_Nil: "(strip q = []) = blank q"
proof
  assume "strip q = []"
  then have "dropWhile is_space (rev (dropWhile is_space q)) = []" by (simp add: strip_def)
  then have all: "\<forall>x\<in>set (dropWhile is_space q). is_space x" by simp
  have "dropWhile is_space q = []"
  proof (rule ccontr)
    assume ne: "dropWhile is_space q \<noteq> []"
    then have "\<not> is_space (hd (dropWhile is_space q))" by (rule hd_dropWhile)
    moreover from ne have "hd (dropWhile is_space q) \<in> set (dropWhile is_space q)" by simp
    ultimately show False using all by blast
  qed
  then show "blank q" by (simp add: blank_def list_all_iff)
next
  assume "blank q"
  then have d: "dropWhile is_space q = []" by (simp add: blank_def list_all_iff)
  show "strip q = []" unfolding strip_def d by (simp only: rev.simps dropWhile.simps)
qed

lemma strip_suffix:
  "dropWhile is_space q = strip q @ rev (takeWhile is_space (rev (dropWhile is_space q)))"
proof -
  let ?t = "dropWhile is_space q"
  have "rev (dropWhile is_space (rev ?t)) @ rev (takeWhile is_space (rev ?t))
        = rev (takeWhile is_space (rev ?t) @ dropWhile is_space (rev ?t))"
    by (simp only: rev_append)
  also have "\<dots> = rev (rev ?t)" by (simp only: takeWhile_dropWhile_id)
  also have "\<dots> = ?t" by (simp only: rev_rev_ident)
  finally show ?thesis unfolding strip_def by (rule sym)
qed

lemma strip_trim: "strip q = trim q"
proof -
  let ?t = "dropWhile is_space q"
  let ?b = "rev (takeWhile is_space (rev ?t))"
  have t: "?t = strip q @ ?b" by (rule strip_suffix)
  then have "length ?t = length (strip q) + length ?b" by (metis length_append)
  then have l: "length ?t - length (takeWhile is_space (rev ?t)) = length (strip q)" by simp
  have "take (length (strip q)) ?t = take (length (strip q)) (strip q @ ?b)"
    using t by (rule arg_cong)
  then have "take (length (strip q)) ?t = strip q" by simp
  with l show ?thesis by (simp add: trim_def Let_def)
qed

lemma strip_decomposition: "\<exists>a b. q = a @ strip q @ b \<and> blank a \<and> blank b"
proof -
  let ?t = "dropWhile is_space q"
  let ?a = "takeWhile is_space q"
  let ?b = "rev (takeWhile is_space (rev ?t))"
  have "q = ?a @ ?t" by simp
  with strip_suffix[of q] have "q = ?a @ strip q @ ?b" by metis
  moreover have "blank ?a" "blank ?b"
    by (auto simp: blank_def list_all_iff dest: set_takeWhileD)
  ultimately show ?thesis by blast
qed

lemma split_on_nonempty: "split_on sep s \<noteq> []"
  by (induction s) (auto split: list.splits)

lemma split_on_pieces: "split_on sep s = pieces sep s"
proof (induction s)
  case Nil
  then show ?case by (simp add: pieces_def)
next
  case (Cons c cs)
  obtain p ps where p: "split_on sep cs = p # ps"
    using split_on_nonempty[of sep cs] by (cases "split_on sep cs") auto
  have "pieces sep (c # cs)
        = (if c = sep then [] # pieces sep cs
           else (c # hd (pieces sep cs)) # tl (pieces sep cs))"
    by (simp add: pieces_def)
  moreover from Cons p have "pieces sep cs = p # ps" by simp
  ultimately have "pieces sep (c # cs) = (if c = sep then [] # p # ps else (c # p) # ps)"
    by simp
  moreover have "split_on sep (c # cs) = (if c = sep then [] # p # ps else (c # p) # ps)"
    using p by simp
  ultimately show ?case by simp
qed

lemma join_split_on: "join_with sep (split_on sep s) = s"
proof (induction s)
  case Nil
  then show ?case by simp
next
  case (Cons c cs)
  obtain p ps where p: "split_on sep cs = p # ps"
    using split_on_nonempty[of sep cs] by (cases "split_on sep cs") auto
  show ?case
  proof (cases "c = sep")
    case True
    with Cons p show ?thesis by simp
  next
    case False
    with Cons p show ?thesis by (cases ps) auto
  qed
qed

lemma split_on_no_sep: "q \<in> set (split_on sep s) \<Longrightarrow> sep \<notin> set q"
proof (induction s arbitrary: q)
  case Nil
  then show ?case by simp
next
  case (Cons c cs)
  obtain p ps where p: "split_on sep cs = p # ps"
    using split_on_nonempty[of sep cs] by (cases "split_on sep cs") auto
  show ?case
  proof (cases "c = sep")
    case True
    with Cons show ?thesis by auto
  next
    case False
    with Cons.prems p have "q = c # p \<or> q \<in> set ps" by simp
    moreover have "sep \<notin> set p" "\<And>x. x \<in> set ps \<Longrightarrow> sep \<notin> set x"
      using Cons.IH p by simp_all
    ultimately show ?thesis using False by auto
  qed
qed

lemma str_or_seq_normal_form: "str_or_seq sep v = normal_form sep v"
proof (cases v)
  case (VStr s)
  have "filter (\<lambda>part. strip part \<noteq> []) (pieces sep s) = filter (\<lambda>q. \<not> blank q) (pieces sep s)"
    by (simp add: strip_eq_Nil)
  moreover have "map strip = map trim" by (rule ext) (simp add: strip_trim)
  ultimately show ?thesis
    by (simp add: VStr stripped_parts_def split_on_pieces)
qed simp_all

lemma plain_field_ok: "plain v \<Longrightarrow> field_ok v"
  by (cases v) (simp_all add: plain_def)

lemma plain_str_or_seq: "plain v \<Longrightarrow> field_ok (str_or_seq sep v)"
proof (cases v)
  case (VStr s)
  then show ?thesis by (simp add: list_all_iff)
qed (simp_all add: plain_def)

lemma plain_dict_get:
  "list_all (\<lambda>kv. plain (snd kv)) dat \<Longrightarrow> has_key dat k \<Longrightarrow> plain (dict_get dat k dflt)"
proof -
  assume a: "list_all (\<lambda>kv. plain (snd kv)) dat" and "has_key dat k"
  then obtain v where v: "map_of dat k = Some v" by (auto simp: has_key_def)
  then have "(k, v) \<in> set dat" by (rule map_of_SomeD)
  with a have "plain v" by (auto simp: list_all_iff)
  with v show ?thesis by (simp add: dict_get_def)
qed

lemma write_ok_update: "write_ok u \<Longrightarrow> field_ok v \<Longrightarrow> write_ok (AList.update k v u)"
  unfolding write_ok_def by (induction u) auto

lemma write_ok_copy_fields:
  assumes "list_all (\<lambda>kv. plain (snd kv)) dat"
  shows "write_ok u \<Longrightarrow> write_ok (copy_fields names dat u)"
proof (induction names arbitrary: u)
  case Nil
  then show ?case by (simp add: copy_fields_def)
next
  case (Cons n names)
  have step: "copy_fields (n # names) dat u
      = copy_fields names dat
          (if has_key dat n then AList.update n (dict_get dat n VNull) u else u)"
    by (simp add: copy_fields_def)
  have "write_ok (if has_key dat n then AList.update n (dict_get dat n VNull) u else u)"
    using Cons.prems plain_field_ok[OF plain_dict_get[OF assms]]
    by (simp add: write_ok_update)
  then show ?case unfolding step by (rule Cons.IH)
qed

lemma write_ok_copy_seq:
  assumes "list_all (\<lambda>kv. plain (snd kv)) dat"
  shows "write_ok u \<Longrightarrow> write_ok (copy_seq sep name dat u)"
  using plain_str_or_seq[OF plain_dict_get[OF assms]]
  by (simp add: copy_seq_def write_ok_update)

text \<open>
  C8, as stated, fails on the code. A request that supplies \<^verbatim>\<open>author\<close> leaves the
  stored author as it was: only the fields the handler lists are copied. And a request
  with an empty body is refused with 400, so nothing is merged and \<^verbatim>\<open>updatedAt\<close> is
  not refreshed.
\<close>

theorem update_every_supplied_field_counterexample:
  "map_of (blogs (snd (update_blog ''b1'' (Some [(''author'', VStr ''eve'')])
                         (sess_of ''a1'' ''admin'') blog_db))) ''b1''
     = Some [(''title'', VStr ''Hello''), (''shortDesc'', VStr ''A post''),
             (''content'', VStr ''Text''), (''status'', VStr ''published''),
             (''author'', VStr ''admin@example.org''), (''updatedAt'', VSentinel)] \<and>
   update_blog ''b1'' (Some []) (sess_of ''a1'' ''admin'') blog_db
     = (Json 400 (failure ''No data provided''), blog_db)"
  by (simp add: update_blog_def blog_db_def db0_def copy_fields_def has_key_def
      merge_fields_def write_ok_def)

text \<open>
  C8, amended. Take an existing blog or recipe and a non-empty update request whose
  values are plain (scalars or lists of scalars that the store accepts). The stored
  document afterwards has the server-timestamp marker under \<^verbatim>\<open>updatedAt\<close>; every
  supplied field that the handler lists (for a blog \<^verbatim>\<open>title\<close>, \<^verbatim>\<open>shortDesc\<close>,
  \<^verbatim>\<open>content\<close>, \<^verbatim>\<open>status\<close>, \<^verbatim>\<open>date\<close>, \<^verbatim>\<open>image\<close>; for a recipe also
  \<^verbatim>\<open>ingredients\<close>, \<^verbatim>\<open>instructions\<close>, \<^verbatim>\<open>tags\<close>, \<^verbatim>\<open>prepTime\<close>,
  \<^verbatim>\<open>cookTime\<close>, \<^verbatim>\<open>servings\<close>, \<^verbatim>\<open>category\<close>) has the supplied value; every
  other field, supplied or not, is as before, and so is every other document. An empty
  request body is refused with 400 and nothing is written. For a recipe,
  \<^verbatim>\<open>ingredients\<close> and \<^verbatim>\<open>instructions\<close> are stored in the normal form for the
  newline and \<^verbatim>\<open>tags\<close> in the normal form for the comma: a string is cut into its
  pieces at the separator, the blank pieces are dropped, the others are trimmed and
  kept in their order. The last part of the statement says what pieces and trimming
  are: joined with the separator the pieces give the string back and none holds the
  separator; trimming takes whitespace, and nothing else, off both ends.
\<close>

theorem update_merges_listed_fields:
  assumes "dat \<noteq> []" and "list_all (\<lambda>kv. plain (snd kv)) dat"
  shows "update_blog i (Some []) sess d = (Json 400 (failure ''No data provided''), d) \<and>
         update_recipe i (Some []) sess d = (Json 400 (failure ''No data provided''), d) \<and>
         (\<forall>old. map_of (blogs d) i = Some old \<longrightarrow>
            (\<exists>new. update_blog i (Some dat) sess d
                     = (Json 200 (success_msg ''Blog updated successfully''),
                        d\<lparr>blogs := AList.update i new (blogs d)\<rparr>) \<and>
                   (\<forall>k. map_of new k =
                      (if k = ''updatedAt'' then Some VSentinel
                       else if k \<in> set [''title'', ''shortDesc'', ''content'', ''status'',
                                          ''date'', ''image''] \<and> has_key dat k
                         then map_of dat k
                       else map_of old k)))) \<and>
         (\<forall>old. map_of (recipes d) i = Some old \<longrightarrow>
            (\<exists>new. update_recipe i (Some dat) sess d
                     = (Json 200 (success_msg ''Recipe updated successfully''),
                        d\<lparr>recipes := AList.update i new (recipes d)\<rparr>) \<and>
                   (\<forall>k. map_of new k =
                      (if k = ''updatedAt'' then Some VSentinel
                       else if k \<in> {''ingredients'', ''instructions''} \<and> has_key dat k
                         then Some (normal_form (CHR 0x0A) (dict_get dat k VNull))
                       else if k = ''tags'' \<and> has_key dat k
                         then Some (normal_form (CHR '','') (dict_get dat k VNull))
                       else if k \<in> set ([''title'', ''shortDesc'', ''content'', ''status'',
                                           ''date'', ''image'']
                                          @ [''prepTime'', ''cookTime'', ''servings'',
                                             ''category'']) \<and> has_key dat k
                         then map_of dat k
                       else map_of old k)))) \<and>
         (\<forall>sep s. pieces sep s \<noteq> [] \<and> join_with sep (pieces sep s) = s \<and>
                  (\<forall>p\<in>set (pieces sep s). sep \<notin> set p)) \<and>
         (\<forall>q. (\<exists>a b. q = a @ trim q @ b \<and> blank a \<and> blank b) \<and>
              (trim q \<noteq> [] \<longrightarrow> \<not> is_space (hd (trim q)) \<and> \<not> is_space (last (trim q))))"
proof (intro conjI allI impI)
  show "update_blog i (Some []) sess d = (Json 400 (failure ''No data provided''), d)"
    by (simp add: update_blog_def)
next
  show "update_recipe i (Some []) sess d = (Json 400 (failure ''No data provided''), d)"
    by (simp add: update_recipe_def)
next
  fix old
  assume old: "map_of (blogs d) i = Some old"
  let ?F = "[''title'', ''shortDesc'', ''content'', ''status'', ''date'', ''image'']"
  let ?upd = "copy_fields ?F dat [(''updatedAt'', VSentinel)]"
  let ?new = "merge_fields old ?upd"
  have u: "''updatedAt'' \<notin> set ?F" by simp
  have "write_ok [(''updatedAt'', VSentinel)]" by (simp add: write_ok_def)
  then have w: "write_ok ?upd" by (rule write_ok_copy_fields[OF assms(2)])
  have "update_blog i (Some dat) sess d
          = (Json 200 (success_msg ''Blog updated successfully''),
             d\<lparr>blogs := AList.update i ?new (blogs d)\<rparr>)"
    using assms(1) old w by (simp add: update_blog_def Let_def)
  moreover have "\<forall>k. map_of ?new k =
      (if k = ''updatedAt'' then Some VSentinel
       else if k \<in> set ?F \<and> has_key dat k then map_of dat k else map_of old k)"
    using merged_blog_field[OF u] by blast
  ultimately show "\<exists>new. update_blog i (Some dat) sess d
                     = (Json 200 (success_msg ''Blog updated successfully''),
                        d\<lparr>blogs := AList.update i new (blogs d)\<rparr>) \<and>
                   (\<forall>k. map_of new k =
                      (if k = ''updatedAt'' then Some VSentinel
                       else if k \<in> set ?F \<and> has_key dat k then map_of dat k
                       else map_of old k))"
    by blast
next
  fix old
  assume old: "map_of (recipes d) i = Some old"
  let ?F1 = "[''title'', ''shortDesc'', ''content'', ''status'', ''date'', ''image'']"
  let ?F2 = "[''prepTime'', ''cookTime'', ''servings'', ''category'']"
  let ?new = "merge_fields old (recipe_update_data dat)"
  have side: "''updatedAt'' \<notin> set ?F1" "''updatedAt'' \<notin> set ?F2"
    "''updatedAt'' \<noteq> ''ingredients''" "''updatedAt'' \<noteq> ''instructions''"
    "''updatedAt'' \<noteq> ''tags''"
    "''ingredients'' \<notin> set ?F2" "''instructions'' \<notin> set ?F2" "''tags'' \<notin> set ?F2"
    "''tags'' \<noteq> ''ingredients''" "''tags'' \<noteq> ''instructions''"
    by simp_all
  have "write_ok [(''updatedAt'', VSentinel)]" by (simp add: write_ok_def)
  then have w: "write_ok (recipe_update_data dat)"
    unfolding recipe_update_data_def
    by (intro write_ok_copy_fields[OF assms(2)] write_ok_copy_seq[OF assms(2)])
  have "update_recipe i (Some dat) sess d
          = (Json 200 (success_msg ''Recipe updated successfully''),
             d\<lparr>recipes := AList.update i ?new (recipes d)\<rparr>)"
    using assms(1) old w by (simp add: update_recipe_def)
  moreover have "\<forall>k. map_of ?new k =
      (if k = ''updatedAt'' then Some VSentinel
       else if k \<in> {''ingredients'', ''instructions''} \<and> has_key dat k
         then Some (normal_form (CHR 0x0A) (dict_get dat k VNull))
       else if k = ''tags'' \<and> has_key dat k
         then Some (normal_form (CHR '','') (dict_get dat k VNull))
       else if k \<in> set (?F1 @ ?F2) \<and> has_key dat k then map_of dat k
       else map_of old k)"
    unfolding recipe_update_data_def merged_recipe_field[OF side] str_or_seq_normal_form
    by simp
  ultimately show "\<exists>new. update_recipe i (Some dat) sess d
                     = (Json 200 (success_msg ''Recipe updated successfully''),
                        d\<lparr>recipes := AList.update i new (recipes d)\<rparr>) \<and>
                   (\<forall>k. map_of new k =
                      (if k = ''updatedAt'' then Some VSentinel
                       else if k \<in> {''ingredients'', ''instructions''} \<and> has_key dat k
                         then Some (normal_form (CHR 0x0A) (dict_get dat k VNull))
                       else if k = ''tags'' \<and> has_key dat k
                         then Some (normal_form (CHR '','') (dict_get dat k VNull))
                       else if k \<in> set (?F1 @ ?F2) \<and> has_key dat k then map_of dat k
                       else map_of old k))"
    by blast
next
  fix sep s
  show "pieces sep s \<noteq> []"
    unfolding split_on_pieces[symmetric] by (rule split_on_nonempty)
next
  fix sep s
  show "join_with sep (pieces sep s) = s"
    unfolding split_on_pieces[symmetric] by (rule join_split_on)
next
  fix sep s
  show "\<forall>p\<in>set (pieces sep s). sep \<notin> set p"
    unfolding split_on_pieces[symmetric] using split_on_no_sep by blast
next
  fix q
  show "\<exists>a b. q = a @ trim q @ b \<and> blank a \<and> blank b"
    unfolding strip_trim[symmetric] by (rule strip_decomposition)
next
  fix q
  assume "trim q \<noteq> []"
  then have "strip q \<noteq> []" by (simp add: strip_trim)
  from strip_ends[OF this] show "\<not> is_space (hd (trim q))"
    by (simp add: strip_trim)
next
  fix q
  assume "trim q \<noteq> []"
  then have "strip q \<noteq> []" by (simp add: strip_trim)
  from strip_ends[OF this] show "\<not> is_space (last (trim q))"
    by (simp add: strip_trim)
qed

text \<open>The example of the specification, with spaces around a line, and a list of tags:
  the blank pieces are dropped and the others trimmed.\<close>

lemma eggs_and_flour_parts:
  "normal_form (CHR 0x0A) (VStr eggs_and_flour) = VList [VStr ''2 eggs'', VStr ''1 cup flour'']"
  by code_simp

lemma some_tags_parts:
  "normal_form (CHR '','') (VStr some_tags)
     = VList [VStr ''quick'', VStr ''vegan'', VStr ''low fat'']"
  by code_simp

theorem update_merges_listed_fields_witness:
  "(\<exists>new. update_blog ''b1'' (Some [(''title'', VStr ''New''), (''author'', VStr ''eve'')])
              (sess_of ''a1'' ''admin'') blog_db
            = (Json 200 (success_msg ''Blog updated successfully''),
               blog_db\<lparr>blogs := AList.update ''b1'' new (blogs blog_db)\<rparr>) \<and>
          map_of new ''updatedAt'' = Some VSentinel \<and>
          map_of new ''title'' = Some (VStr ''New'') \<and>
          map_of new ''author'' = Some (VStr ''admin@example.org'')) \<and>
   (\<exists>new. update_recipe ''r1''
              (Some [(''ingredients'', VStr eggs_and_flour), (''tags'', VStr some_tags)])
              (sess_of ''a1'' ''admin'') recipe_db
            = (Json 200 (success_msg ''Recipe updated successfully''),
               recipe_db\<lparr>recipes := AList.update ''r1'' new (recipes recipe_db)\<rparr>) \<and>
          map_of new ''ingredients'' = Some (VList [VStr ''2 eggs'', VStr ''1 cup flour'']) \<and>
          map_of new ''tags'' = Some (VList [VStr ''quick'', VStr ''vegan'', VStr ''low fat'']) \<and>
          map_of new ''title'' = Some (VStr ''Pancakes''))"
proof -
  let ?bdat = "[(''title'', VStr ''New''), (''author'', VStr ''eve'')]"
  let ?bold = "[(''title'', VStr ''Hello''), (''shortDesc'', VStr ''A post''),
                (''content'', VStr ''Text''), (''status'', VStr ''published''),
                (''author'', VStr ''admin@example.org'')]"
  let ?rdat = "[(''ingredients'', VStr eggs_and_flour), (''tags'', VStr some_tags)]"
  let ?rold = "[(''title'', VStr ''Pancakes''), (''status'', VStr ''draft''),
                (''ingredients'', VList [VStr ''1 egg'']),
                (''author'', VStr ''admin@example.org'')]"
  have b0: "?bdat \<noteq> []" and r0: "?rdat \<noteq> []" by simp_all
  have bp: "list_all (\<lambda>kv. plain (snd kv)) ?bdat" and rp: "list_all (\<lambda>kv. plain (snd kv)) ?rdat"
    by (simp_all add: plain_def)
  have b1: "map_of (blogs blog_db) ''b1'' = Some ?bold"
    by (simp add: blog_db_def db0_def)
  have r1: "map_of (recipes recipe_db) ''r1'' = Some ?rold"
    by (simp add: recipe_db_def db0_def)
  from update_merges_listed_fields[where dat="?bdat" and d=blog_db and i="''b1''"
      and sess="sess_of ''a1'' ''admin''", OF b0 bp] b1
  obtain new where new:
    "update_blog ''b1'' (Some ?bdat) (sess_of ''a1'' ''admin'') blog_db
       = (Json 200 (success_msg ''Blog updated successfully''),
          blog_db\<lparr>blogs := AList.update ''b1'' new (blogs blog_db)\<rparr>)"
    "\<And>k. map_of new k =
       (if k = ''updatedAt'' then Some VSentinel
        else if k \<in> set [''title'', ''shortDesc'', ''content'', ''status'', ''date'', ''image'']
                \<and> has_key ?bdat k
          then map_of ?bdat k
        else map_of ?bold k)"
    by blast
  have nb: "map_of new ''updatedAt'' = Some VSentinel"
    "map_of new ''title'' = Some (VStr ''New'')"
    "map_of new ''author'' = Some (VStr ''admin@example.org'')"
    by (simp_all add: new(2) has_key_def)
  from update_merges_listed_fields[where dat="?rdat" and d=recipe_db and i="''r1''"
      and sess="sess_of ''a1'' ''admin''", OF r0 rp] r1
  obtain rnew where rnew:
    "update_recipe ''r1'' (Some ?rdat) (sess_of ''a1'' ''admin'') recipe_db
       = (Json 200 (success_msg ''Recipe updated successfully''),
          recipe_db\<lparr>recipes := AList.update ''r1'' rnew (recipes recipe_db)\<rparr>)"
    "\<And>k. map_of rnew k =
       (if k = ''updatedAt'' then Some VSentinel
        else if k \<in> {''ingredients'', ''instructions''} \<and> has_key ?rdat k
          then Some (normal_form (CHR 0x0A) (dict_get ?rdat k VNull))
        else if k = ''tags'' \<and> has_key ?rdat k
          then Some (normal_form (CHR '','') (dict_get ?rdat k VNull))
        else if k \<in> set ([''title'', ''shortDesc'', ''content'', ''status'', ''date'', ''image'']
                            @ [''prepTime'', ''cookTime'', ''servings'', ''category''])
                \<and> has_key ?rdat k
          then map_of ?rdat k
        else map_of ?rold k)"
    by blast
  have g: "dict_get ?rdat ''ingredients'' VNull = VStr eggs_and_flour"
    "dict_get ?rdat ''tags'' VNull = VStr some_tags"
    by (simp_all add: dict_get_def)
  have nr: "map_of rnew ''ingredients'' = Some (VList [VStr ''2 eggs'', VStr ''1 cup flour''])"
    "map_of rnew ''tags'' = Some (VList [VStr ''quick'', VStr ''vegan'', VStr ''low fat''])"
    "map_of rnew ''title'' = Some (VStr ''Pancakes'')"
    unfolding rnew(2)
    by (simp_all add: has_key_def g eggs_and_flour_parts some_tags_parts
        del: normal_form.simps)
  from new(1) nb rnew(1) nr show ?thesis by blast
qed

section \<open>The status of a content item\<close>

lemma insert_desc_strings:
  assumes "\<exists>s. created_key x = VStr s" and "\<forall>y\<in>set ys. \<exists>s. created_key y = VStr s"
  shows "\<exists>r. insert_desc x ys = Inr r \<and> set r = insert x (set ys)"
  using assms(2)
proof (induction ys)
  case Nil
  then show ?case by simp
next
  case (Cons y ys)
  from assms(1) obtain s where s: "created_key x = VStr s" by blast
  from Cons.prems obtain t where t: "created_key y = VStr t" by auto
  from Cons obtain r where r: "insert_desc x ys = Inr r" "set r = insert x (set ys)" by auto
  show ?case
  proof (cases "s < t")
    case True
    with s t r show ?thesis by auto
  next
    case False
    with s t show ?thesis by auto
  qed
qed

lemma sort_desc_strings:
  "\<forall>x\<in>set xs. \<exists>s. created_key x = VStr s \<Longrightarrow> \<exists>r. sort_desc xs = Inr r \<and> set r = set xs"
proof (induction xs)
  case Nil
  then show ?case by simp
next
  case (Cons x xs)
  then obtain r where r: "sort_desc xs = Inr r" "set r = set xs" by auto
  with Cons.prems have "\<forall>y\<in>set r. \<exists>s. created_key y = VStr s" by simp
  moreover from Cons.prems have "\<exists>s. created_key x = VStr s" by simp
  ultimately obtain r' where "insert_desc x r = Inr r'" "set r' = insert x (set r)"
    using insert_desc_strings by blast
  with r show ?case by simp
qed

lemma insert_desc_set: "insert_desc x ys = Inr r \<Longrightarrow> set r = insert x (set ys)"
proof (induction ys arbitrary: r)
  case Nil
  then show ?case by auto
next
  case (Cons y ys)
  show ?case
  proof (cases "py_lt (created_key x) (created_key y)")
    case (Inl e)
    with Cons.prems show ?thesis by simp
  next
    case (Inr lt)
    show ?thesis
    proof (cases lt)
      case False
      with Inr Cons.prems show ?thesis by auto
    next
      case True
      show ?thesis
      proof (cases "insert_desc x ys")
        case (Inl e)
        with Inr True Cons.prems show ?thesis by simp
      next
        case r': (Inr r')
        with Inr True Cons.prems have "r = y # r'" by simp
        moreover from Cons.IH[OF r'] have "set r' = insert x (set ys)" .
        ultimately show ?thesis by auto
      qed
    qed
  qed
qed

lemma sort_desc_set: "sort_desc xs = Inr r \<Longrightarrow> set r = set xs"
proof (induction xs arbitrary: r)
  case Nil
  then show ?case by simp
next
  case (Cons x xs)
  show ?case
  proof (cases "sort_desc xs")
    case (Inl e)
    with Cons.prems show ?thesis by simp
  next
    case r': (Inr r')
    with Cons.prems have "insert_desc x r' = Inr r" by simp
    then have "set r = insert x (set r')" by (rule insert_desc_set)
    with Cons.IH[OF r'] show ?thesis by simp
  qed
qed

lemma map_of_clean:
  "map_of (clean_firestore_data now b) k = map_option (clean_value now) (map_of b k)"
  by (induction b) (auto simp: clean_firestore_data_def)

lemma created_key_listed:
  assumes "created_ok b"
  shows "\<exists>s. created_key (AList.update ''id'' i (clean_firestore_data now b)) = VStr s"
proof -
  have "created_key (AList.update ''id'' i (clean_firestore_data now b))
        = (case map_of b ''createdAt'' of None \<Rightarrow> VStr [] | Some v \<Rightarrow> clean_value now v)"
    by (simp add: created_key_def dict_get_def update_conv' map_of_clean split: option.splits)
  with assms show ?thesis
    by (auto simp: created_ok_def split: option.splits fsval.splits)
qed

lemma item_id_listed:
  "item_id (VDict (AList.update ''id'' (VStr i) x)) = VStr i"
  by (simp add: dict_get_def update_conv')

lemma listed_ids_listing:
  "set (listed_ids (listing name items)) \<subseteq> item_id ` VDict ` set items"
  by (auto simp: listed_ids_def listing_def split: sum.splits dest: sort_desc_set)

lemma listed_ids_listing_ok:
  assumes "\<forall>x\<in>set items. \<exists>s. created_key x = VStr s"
  shows "set (listed_ids (listing name items)) = item_id ` VDict ` set items"
proof -
  from sort_desc_strings[OF assms] obtain r where "sort_desc items = Inr r" "set r = set items"
    by blast
  then show ?thesis by (simp add: listed_ids_def listing_def image_image)
qed

lemma admin_listing_has:
  assumes "list_all (\<lambda>kv. created_ok (snd kv)) docs" and "(i, b) \<in> set docs"
  shows "VStr i \<in> set (listed_ids (listing name (listed e docs)))"
proof -
  have "\<forall>x\<in>set (listed e docs). \<exists>s. created_key x = VStr s"
    using assms(1) by (auto simp: listed_def list_all_iff created_key_listed)
  then have "set (listed_ids (listing name (listed e docs)))
             = item_id ` VDict ` set (listed e docs)"
    by (rule listed_ids_listing_ok)
  moreover have "AList.update ''id'' (VStr i) (clean_firestore_data (now_iso e) b)
                 \<in> set (listed e docs)"
    using assms(2) by (force simp: listed_def)
  ultimately show ?thesis
    using item_id_listed[of i "clean_firestore_data (now_iso e) b"] by (metis image_eqI)
qed

lemma public_listing_only_published:
  assumes "VStr i \<in> set (listed_ids (listing name (listed e (published docs))))"
  shows "\<exists>b. (i, b) \<in> set docs \<and> map_of b ''status'' = Some (VStr ''published'')"
proof -
  from assms listed_ids_listing
  have "VStr i \<in> item_id ` VDict ` set (listed e (published docs))" by blast
  then obtain kv where kv: "kv \<in> set (published docs)"
    "VStr i = item_id (VDict (AList.update ''id'' (VStr (fst kv))
                (clean_firestore_data (now_iso e) (snd kv))))"
    by (auto simp: listed_def simp del: item_id.simps)
  then have i: "fst kv = i" by (simp only: item_id_listed) simp
  from kv(1) have "kv \<in> set docs" "map_of (snd kv) ''status'' = Some (VStr ''published'')"
    by (simp_all add: published_def)
  with i have "(i, snd kv) \<in> set docs \<and> map_of (snd kv) ''status'' = Some (VStr ''published'')"
    by (metis prod.collapse)
  then show ?thesis by blast
qed

lemma not_published_not_listed:
  assumes "distinct (map fst docs)" and "map_of docs i = Some b"
    and "map_of b ''status'' \<noteq> Some (VStr ''published'')"
  shows "VStr i \<notin> set (listed_ids (listing name (listed e (published docs))))"
proof
  assume "VStr i \<in> set (listed_ids (listing name (listed e (published docs))))"
  from public_listing_only_published[OF this] obtain b' where
    b': "(i, b') \<in> set docs" "map_of b' ''status'' = Some (VStr ''published'')" by blast
  from assms(1) b'(1) have "map_of docs i = Some b'" by simp
  with assms(2,3) b'(2) show False by simp
qed

lemma store_ok_update:
  assumes "store_ok docs" and "created_ok b"
  shows "store_ok (AList.update i b docs)"
proof -
  have "list_all (\<lambda>kv. created_ok (snd kv)) (AList.update i b docs)"
    using assms by (induction docs) (auto simp: store_ok_def)
  with assms(1) show ?thesis by (simp add: store_ok_def distinct_update)
qed

lemma map_of_in_set: "map_of al k = Some v \<Longrightarrow> (k, v) \<in> set al"
  by (rule map_of_SomeD)

lemma first_missing_None:
  "first_missing required dat = None \<Longrightarrow> field \<in> set required \<Longrightarrow>
   has_key dat field \<and> truthy (dict_get dat field VNull)"
  by (auto simp: first_missing_def find_None_iff)

lemma plain_dict_get_default:
  assumes "list_all (\<lambda>kv. plain (snd kv)) dat" and "plain dflt"
  shows "plain (dict_get dat k dflt)"
proof (cases "has_key dat k")
  case True
  with assms(1) show ?thesis by (rule plain_dict_get)
next
  case False
  with assms(2) show ?thesis by (simp add: has_key_def dict_get_def)
qed

lemma plain_scalars: "plain (VStr s)" "plain VNull" "plain (VList [])"
  by (simp_all add: plain_def)

lemma plain_session_uid: "plain (session_uid sess)"
  by (simp add: session_uid_def plain_def split: option.splits)

text \<open>
  C9. The create handlers test the status for presence and truthiness only. A
  request with plain values whose four required fields are present and truthy and whose
  status is any non-empty string \<open>st\<close> is answered with success, and the stored item
  has status \<open>st\<close>. When \<open>st\<close> is not \<^verbatim>\<open>"published"\<close> (in particular when it is outside the
  enumeration), the item is in the admin listing and not in the public listing, for
  blogs and for recipes alike.
\<close>

theorem status_not_validated:
  assumes "st \<noteq> []" and "dict_get dat ''status'' VNull = VStr st"
    and "first_missing [''title'', ''shortDesc'', ''content'', ''status''] dat = None"
    and "store_ok (blogs d)" and "store_ok (recipes d)"
    and "list_all (\<lambda>kv. plain (snd kv)) dat"
    and "plain (opt_get (s_email sess) (VStr ''Admin''))"
  shows "(\<exists>body d'. create_blog e (Some dat) sess d = (Json 200 body, d') \<and>
            (\<exists>b. map_of (blogs d') (new_id e) = Some b \<and> map_of b ''status'' = Some (VStr st)) \<and>
            (st \<noteq> ''published'' \<longrightarrow>
               VStr (new_id e) \<in> set (listed_ids (fst (get_admin_blogs e' sess' d'))) \<and>
               VStr (new_id e) \<notin> set (listed_ids (get_blogs e' d')))) \<and>
         (\<exists>body d'. create_recipe e (Some dat) sess d = (Json 200 body, d') \<and>
            (\<exists>b. map_of (recipes d') (new_id e) = Some b \<and> map_of b ''status'' = Some (VStr st)) \<and>
            (st \<noteq> ''published'' \<longrightarrow>
               VStr (new_id e) \<in> set (listed_ids (fst (get_admin_recipes e' sess' d'))) \<and>
               VStr (new_id e) \<notin> set (listed_ids (get_recipes e' d'))))"
proof -
  have ne: "dat \<noteq> []"
    using first_missing_None[OF assms(3), of "''status''"] by (auto simp: has_key_def)
  note pl = plain_field_ok[OF plain_dict_get_default[OF assms(6)]]
  have f: "\<And>k dflt. plain dflt \<Longrightarrow> field_ok (dict_get dat k dflt)"
    "\<And>k sep dflt. plain dflt \<Longrightarrow> field_ok (str_or_seq sep (dict_get dat k dflt))"
    "field_ok (opt_get (s_email sess) (VStr ''Admin''))" "field_ok (session_uid sess)"
    using pl plain_str_or_seq[OF plain_dict_get_default[OF assms(6)]]
      plain_field_ok[OF assms(7)] plain_field_ok[OF plain_session_uid]
    by blast+
  show ?thesis
  proof (rule conjI)
    let ?b = "[(''title'', dict_get dat ''title'' VNull),
               (''shortDesc'', dict_get dat ''shortDesc'' VNull),
               (''content'', dict_get dat ''content'' VNull),
               (''status'', dict_get dat ''status'' VNull),
               (''date'', dict_get dat ''date'' (VStr (today e))),
               (''image'', dict_get dat ''image''
                  (VStr ''https://placehold.co/600x400/3d3d3d/ffffff?text=Blog+Image'')),
               (''author'', opt_get (s_email sess) (VStr ''Admin'')),
               (''authorId'', session_uid sess),
               (''createdAt'', VSentinel),
               (''updatedAt'', VSentinel)]"
    let ?d' = "d\<lparr>blogs := AList.update (new_id e) ?b (blogs d)\<rparr>"
    have "write_ok ?b" by (simp add: write_ok_def f plain_scalars)
    then have c: "\<exists>body. create_blog e (Some dat) sess d = (Json 200 body, ?d')"
      using ne assms(3) by (simp add: create_blog_def Let_def)
    have m: "map_of (blogs ?d') (new_id e) = Some ?b" by (simp add: update_conv')
    have s: "map_of ?b ''status'' = Some (VStr st)" using assms(2) by simp
    have "created_ok ?b" by (simp add: created_ok_def)
    with assms(4) have ok: "store_ok (blogs ?d')" by (simp add: store_ok_update)
    have adm: "VStr (new_id e) \<in> set (listed_ids (fst (get_admin_blogs e' sess' ?d')))"
      unfolding get_admin_blogs_def fst_conv
      by (rule admin_listing_has[OF _ map_of_in_set[OF m]]) (use ok in \<open>simp add: store_ok_def\<close>)
    have pub: "st \<noteq> ''published'' \<Longrightarrow>
        VStr (new_id e) \<notin> set (listed_ids (get_blogs e' ?d'))"
      unfolding get_blogs_def
      by (rule not_published_not_listed[OF _ m]) (use ok s in \<open>simp_all add: store_ok_def\<close>)
    from c m s adm pub
    show "\<exists>body d'. create_blog e (Some dat) sess d = (Json 200 body, d') \<and>
            (\<exists>b. map_of (blogs d') (new_id e) = Some b \<and> map_of b ''status'' = Some (VStr st)) \<and>
            (st \<noteq> ''published'' \<longrightarrow>
               VStr (new_id e) \<in> set (listed_ids (fst (get_admin_blogs e' sess' d'))) \<and>
               VStr (new_id e) \<notin> set (listed_ids (get_blogs e' d')))"
      by blast
  next
    let ?b = "[(''title'', dict_get dat ''title'' VNull),
               (''shortDesc'', dict_get dat ''shortDesc'' VNull),
               (''content'', dict_get dat ''content'' VNull),
               (''status'', dict_get dat ''status'' VNull),
               (''date'', dict_get dat ''date'' (VStr (today e))),
               (''image'', dict_get dat ''image''
                  (VStr ''https://placehold.co/600x400/3d3d3d/ffffff?text=Recipe+Image'')),
               (''author'', opt_get (s_email sess) (VStr ''Admin'')),
               (''authorId'', session_uid sess),
               (''prepTime'', dict_get dat ''prepTime'' (VStr [])),
               (''cookTime'', dict_get dat ''cookTime'' (VStr [])),
               (''servings'', dict_get dat ''servings'' (VStr [])),
               (''ingredients'',
                  str_or_seq (CHR 0x0A) (dict_get dat ''ingredients'' (VList []))),
               (''instructions'',
                  str_or_seq (CHR 0x0A) (dict_get dat ''instructions'' (VList []))),
               (''tags'', str_or_seq (CHR '','') (dict_get dat ''tags'' (VList []))),
               (''category'', dict_get dat ''category'' (VStr [])),
               (''createdAt'', VSentinel),
               (''updatedAt'', VSentinel)]"
    let ?d' = "d\<lparr>recipes := AList.update (new_id e) ?b (recipes d)\<rparr>"
    have "write_ok ?b" by (simp add: write_ok_def f plain_scalars)
    then have c: "\<exists>body. create_recipe e (Some dat) sess d = (Json 200 body, ?d')"
      using ne assms(3) by (simp add: create_recipe_def Let_def)
    have m: "map_of (recipes ?d') (new_id e) = Some ?b" by (simp add: update_conv')
    have s: "map_of ?b ''status'' = Some (VStr st)" using assms(2) by simp
    have "created_ok ?b" by (simp add: created_ok_def)
    with assms(5) have ok: "store_ok (recipes ?d')" by (simp add: store_ok_update)
    have adm: "VStr (new_id e) \<in> set (listed_ids (fst (get_admin_recipes e' sess' ?d')))"
      unfolding get_admin_recipes_def fst_conv
      by (rule admin_listing_has[OF _ map_of_in_set[OF m]]) (use ok in \<open>simp add: store_ok_def\<close>)
    have pub: "st \<noteq> ''published'' \<Longrightarrow>
        VStr (new_id e) \<notin> set (listed_ids (get_recipes e' ?d'))"
      unfolding get_recipes_def
      by (rule not_published_not_listed[OF _ m]) (use ok s in \<open>simp_all add: store_ok_def\<close>)
    from c m s adm pub
    show "\<exists>body d'. create_recipe e (Some dat) sess d = (Json 200 body, d') \<and>
            (\<exists>b. map_of (recipes d') (new_id e) = Some b \<and> map_of b ''status'' = Some (VStr st)) \<and>
            (st \<noteq> ''published'' \<longrightarrow>
               VStr (new_id e) \<in> set (listed_ids (fst (get_admin_recipes e' sess' d'))) \<and>
               VStr (new_id e) \<notin> set (listed_ids (get_recipes e' d')))"
      by blast
  qed
qed

theorem status_not_validated_witness:
  "\<exists>body d'. create_blog env0 (Some archived_item) (sess_of ''a1'' ''admin'') db0
                = (Json 200 body, d') \<and>
     (\<exists>b. map_of (blogs d') ''n1'' = Some b \<and> map_of b ''status'' = Some (VStr ''archived'')) \<and>
     VStr ''n1'' \<in> set (listed_ids (fst (get_admin_blogs env0 (sess_of ''a1'' ''admin'') d'))) \<and>
     VStr ''n1'' \<notin> set (listed_ids (get_blogs env0 d'))"
proof -
  have h1: "''archived'' \<noteq> []" by simp
  have h2: "dict_get archived_item ''status'' VNull = VStr ''archived''"
    by (simp add: archived_item_def dict_get_def)
  have h3: "first_missing [''title'', ''shortDesc'', ''content'', ''status''] archived_item = None"
    by (simp add: first_missing_def archived_item_def has_key_def dict_get_def)
  have h4: "store_ok (blogs db0)" and h5: "store_ok (recipes db0)"
    by (simp_all add: store_ok_def db0_def)
  have h6: "list_all (\<lambda>kv. plain (snd kv)) archived_item"
    and h7: "plain (opt_get (s_email (sess_of ''a1'' ''admin'')) (VStr ''Admin''))"
    by (simp_all add: archived_item_def plain_def sess_of_def opt_get_def)
  have n: "new_id env0 = ''n1''" by (simp add: env0_def)
  have p: "''archived'' \<noteq> ''published''" by simp
  from status_not_validated[where e=env0 and e'=env0 and sess'="sess_of ''a1'' ''admin''",
      OF h1 h2 h3 h4 h5 h6 h7] p
  show ?thesis unfolding n by blast
qed

end
